theory Spec2Isabelle
  imports Main "HOL-Library.Multiset"
begin

section \<open>Python values used by the two marketplace scripts\<close>

text \<open>
  A Python \<open>str\<close> is a sequence of Unicode code points, so it is modelled as a list of
  natural numbers (the feed's text is Cyrillic; the 8-bit \<open>char\<close> of HOL cannot hold it).
  \<open>lit\<close> embeds an ASCII literal.
\<close>

type_synonym pystr = "nat list"

definition lit :: "string \<Rightarrow> pystr" where
  "lit s = map of_char s"

text \<open>The exceptions (subclasses of \<open>Exception\<close>) that the scripts raise or receive.\<close>

datatype exn =
    ReadTimeout
  | ConnectionError
  | HTTPError
  | BadZipFile
  | ValueError
  | IndexError
  | OtherException

definition ascii_digit :: "nat \<Rightarrow> bool" where
  "ascii_digit c \<longleftrightarrow> 48 \<le> c \<and> c \<le> 57"

section \<open>seller.py: the price normalizer\<close>

text \<open>
  \<open>s.split(sep)\<close> for a separator of one character: the pieces between the
  occurrences of \<open>sep\<close>; there is always at least one piece.
\<close>

fun str_split :: "nat \<Rightarrow> pystr \<Rightarrow> pystr list" where
  "str_split sep [] = [[]]"
| "str_split sep (c # cs) =
     (if c = sep then [] # str_split sep cs
      else (case str_split sep cs of
              [] \<Rightarrow> [[c]]
            | p # ps \<Rightarrow> (c # p) # ps))"

text \<open>\<open>re.sub("[^0-9]", "", s)\<close>: every character outside the class \<open>0-9\<close> is deleted.\<close>

definition re_sub_non_digit :: "pystr \<Rightarrow> pystr" where
  "re_sub_non_digit s = filter ascii_digit s"

text \<open>
  \<open>return re.sub("[^0-9]", "", price.split(".")[0])\<close>; the subscript \<open>[0]\<close> raises
  IndexError on an empty list.
\<close>

definition price_conversion :: "pystr \<Rightarrow> exn + pystr" where
  "price_conversion price =
     (case str_split 46 price of
        [] \<Rightarrow> Inl IndexError
      | first # _ \<Rightarrow> Inr (re_sub_non_digit first))"

text \<open>
  The reference algorithm in the words of the specification: the prefix before the first
  decimal point, with every non-digit character removed.
\<close>

definition spec_price_normalizer :: "pystr \<Rightarrow> pystr" where
  "spec_price_normalizer s = filter ascii_digit (takeWhile (\<lambda>c. c \<noteq> 46) s)"

section \<open>seller.py: divide\<close>

text \<open>\<open>range(i, stop, n)\<close> for non-negative arguments; a zero step is rejected by the caller.\<close>

function range_step :: "nat \<Rightarrow> nat \<Rightarrow> nat \<Rightarrow> nat list" where
  "range_step i stop n = (if n = 0 \<or> stop \<le> i then [] else i # range_step (i + n) stop n)"
  by pat_completeness auto
termination
  by (relation "measure (\<lambda>(i, stop, n). stop - i)") auto

text \<open>The slice \<open>lst[i : j]\<close> for \<open>0 \<le> i \<le> j\<close>: it is cut off at the end of the list.\<close>

definition slice :: "'a list \<Rightarrow> nat \<Rightarrow> nat \<Rightarrow> 'a list" where
  "slice lst i j = take (j - i) (drop i lst)"

text \<open>
  \<open>for i in range(0, len(lst), n): yield lst[i : i + n]\<close>, collected as
  \<open>list(divide(lst, n))\<close>. \<open>range\<close> raises ValueError for a step of zero.
\<close>

definition divide :: "'a list \<Rightarrow> nat \<Rightarrow> exn + 'a list list" where
  "divide lst n =
     (if n = 0 then Inl ValueError
      else Inr (map (\<lambda>i. slice lst i (i + n)) (range_step 0 (length lst) n)))"

section \<open>The built-in \<open>int\<close> applied to a string\<close>

text \<open>
  \<open>int(s)\<close> for a string \<open>s\<close> in base 10, as CPython computes it. The string is first
  brought to ASCII: a code point below 128 is kept, a Unicode white-space character becomes
  a blank, a Unicode decimal digit becomes the ASCII digit of its value, and at any other
  character the text is cut off after a question mark. The two Unicode tables
  (\<open>str.isspace\<close> and \<open>unicodedata.decimal\<close>) belong to the interpreter, not to this
  repository, so they are parameters; they are consulted for code points from 128 on only.
  So is the interpreter's limit on the number of digits of a decimal text
  (\<open>sys.get_int_max_str_digits()\<close>): 4300 unless configured otherwise, 0 for no limit.
\<close>

record interpreter =
  uni_space :: "nat \<Rightarrow> bool"
  uni_decimal :: "nat \<Rightarrow> nat option"
  max_str_digits :: nat

fun to_ascii :: "interpreter \<Rightarrow> pystr \<Rightarrow> pystr" where
  "to_ascii U [] = []"
| "to_ascii U (c # cs) =
     (if c < 128 then c # to_ascii U cs
      else if uni_space U c then 32 # to_ascii U cs
      else (case uni_decimal U c of
              None \<Rightarrow> [63]
            | Some d \<Rightarrow> (48 + d) # to_ascii U cs))"

text \<open>The ASCII white space that the parser skips: tab, line feed, VT, FF, CR and blank.\<close>

definition ascii_space :: "nat \<Rightarrow> bool" where
  "ascii_space c \<longleftrightarrow> (9 \<le> c \<and> c \<le> 13) \<or> c = 32"

text \<open>
  The digit scan: digits and underscores are consumed; two underscores in a row and an
  underscore at the end of the scan are errors. \<open>prev_us\<close> tells whether the character
  before was an underscore, \<open>digits\<close> counts the digits and \<open>acc\<close> is the value read so
  far. The result is the value, the number of digits and the text left over.
\<close>

fun scan_digits :: "bool \<Rightarrow> nat \<Rightarrow> nat \<Rightarrow> pystr \<Rightarrow> (nat \<times> nat \<times> pystr) option" where
  "scan_digits prev_us digits acc [] = (if prev_us then None else Some (acc, digits, []))"
| "scan_digits prev_us digits acc (c # cs) =
     (if ascii_digit c then scan_digits False (Suc digits) (10 * acc + (c - 48)) cs
      else if c = 95 then (if prev_us then None else scan_digits True digits acc cs)
      else if prev_us then None
      else Some (acc, digits, c # cs))"

text \<open>The text after the sign has to start with a digit: no digits at all and a leading
  underscore are errors.\<close>

definition parse_digits :: "pystr \<Rightarrow> (nat \<times> nat \<times> pystr) option" where
  "parse_digits s =
     (case s of
        [] \<Rightarrow> None
      | c # _ \<Rightarrow> if ascii_digit c then scan_digits False 0 0 s else None)"

text \<open>
  Leading white space, the sign, the digits, the limit on their number (checked for more
  than 640 digits when a limit is set), trailing white space, and nothing after it. Every
  failure is a ValueError.
\<close>

definition py_int :: "interpreter \<Rightarrow> pystr \<Rightarrow> exn + int" where
  "py_int U s =
     (let t = dropWhile ascii_space (to_ascii U s);
          negative = (case t of [] \<Rightarrow> False | c # _ \<Rightarrow> c = 45);
          body = (case t of [] \<Rightarrow> [] | c # cs \<Rightarrow> if c = 43 \<or> c = 45 then cs else t)
      in case parse_digits body of
           None \<Rightarrow> Inl ValueError
         | Some (v, digits, rest) \<Rightarrow>
             if 640 < digits \<and> 0 < max_str_digits U \<and> max_str_digits U < digits
             then Inl ValueError
             else if dropWhile ascii_space rest = []
             then Inr (if negative then - int v else int v)
             else Inl ValueError)"

section \<open>The feed and the quantity rule\<close>

text \<open>
  A feed record (a row of the spreadsheet): the columns \<open>Kod\<close>, \<open>Kolichestvo\<close> and
  \<open>Tsena\<close> (code, quantity, price; Cyrillic in the source), each a string as the
  specification's data model has them, so that \<open>str(...)\<close> of a field is the field.
  (A code or a quantity that the spreadsheet reader yields as an integer behaves in
  \<open>create_stocks\<close> as its decimal text does; cells of other types are outside the model.)
\<close>

record watch =
  watch_code :: pystr
  watch_quantity :: pystr
  watch_price :: pystr

text \<open>
  The rule that both \<open>create_stocks\<close> apply to the quantity of a matched record
  (\<open>str\<close> of a string is the string, so \<open>count\<close> and the argument of \<open>int\<close> are the
  same text):
  \<^verbatim>\<open>
  count = str(watch.get("Kolichestvo"))
  if count == ">10":  stock = 100
  elif count == "1":  stock = 0
  else:               stock = int(watch.get("Kolichestvo"))
  \<close>
\<close>

definition stock_of_count :: "interpreter \<Rightarrow> pystr \<Rightarrow> exn + int" where
  "stock_of_count U quantity =
     (if quantity = lit ''>10'' then Inr 100
      else if quantity = lit ''1'' then Inr 0
      else py_int U quantity)"

section \<open>seller.py: the Ozon payloads\<close>

record ozon_stock =
  stock_offer_id :: pystr
  stock :: int

record ozon_price =
  auto_action_enabled :: pystr
  currency_code :: pystr
  price_offer_id :: pystr
  old_price :: pystr
  price :: pystr

text \<open>
  The first loop of \<open>create_stocks\<close>. The list \<open>offer_ids\<close> is the caller's: the loop
  removes from it (\<open>offer_ids.remove\<close> deletes the first occurrence), so the list is part
  of the result, also when \<open>int\<close> raises in the middle of the loop.
\<close>

fun seller_stocks_loop ::
  "interpreter \<Rightarrow> watch list \<Rightarrow> pystr list \<Rightarrow> ozon_stock list
     \<Rightarrow> pystr list \<times> (exn + ozon_stock list)" where
  "seller_stocks_loop U [] offer_ids stocks = (offer_ids, Inr stocks)"
| "seller_stocks_loop U (w # ws) offer_ids stocks =
     (if watch_code w \<in> set offer_ids then
        (case stock_of_count U (watch_quantity w) of
           Inl e \<Rightarrow> (offer_ids, Inl e)
         | Inr n \<Rightarrow>
             seller_stocks_loop U ws (remove1 (watch_code w) offer_ids)
               (stocks @ [\<lparr>stock_offer_id = watch_code w, stock = n\<rparr>]))
      else seller_stocks_loop U ws offer_ids stocks)"

text \<open>\<open>create_stocks\<close> of seller.py: the caller's list after the call, and the payload
  or the exception.\<close>

definition seller_create_stocks ::
  "interpreter \<Rightarrow> watch list \<Rightarrow> pystr list \<Rightarrow> pystr list \<times> (exn + ozon_stock list)" where
  "seller_create_stocks U watch_remnants offer_ids =
     (case seller_stocks_loop U watch_remnants offer_ids [] of
        (ids, Inl e) \<Rightarrow> (ids, Inl e)
      | (ids, Inr stocks) \<Rightarrow>
          (ids, Inr (stocks @ map (\<lambda>offer_id. \<lparr>stock_offer_id = offer_id, stock = 0\<rparr>) ids)))"

fun seller_create_prices :: "watch list \<Rightarrow> pystr list \<Rightarrow> exn + ozon_price list" where
  "seller_create_prices [] offer_ids = Inr []"
| "seller_create_prices (w # ws) offer_ids =
     (if watch_code w \<in> set offer_ids then
        (case price_conversion (watch_price w) of
           Inl e \<Rightarrow> Inl e
         | Inr p \<Rightarrow>
             (case seller_create_prices ws offer_ids of
                Inl e \<Rightarrow> Inl e
              | Inr prices \<Rightarrow>
                  Inr (\<lparr>auto_action_enabled = lit ''UNKNOWN'', currency_code = lit ''RUB'',
                        price_offer_id = watch_code w, old_price = lit ''0'', price = p\<rparr>
                       # prices)))
      else seller_create_prices ws offer_ids)"

section \<open>market.py: the Yandex.Market payloads\<close>

record sku_item =
  item_count :: int
  item_type :: pystr
  item_updatedAt :: pystr

record market_stock =
  sku :: pystr
  warehouseId :: pystr
  items :: "sku_item list"

record market_price =
  price_id :: pystr
  price_value :: int
  price_currencyId :: pystr

text \<open>\<open>date\<close> is the reading of the clock at the start of the call.\<close>

fun market_stocks_loop ::
  "interpreter \<Rightarrow> pystr \<Rightarrow> pystr \<Rightarrow> watch list \<Rightarrow> pystr list \<Rightarrow> market_stock list
     \<Rightarrow> pystr list \<times> (exn + market_stock list)" where
  "market_stocks_loop U warehouse_id date [] offer_ids stocks = (offer_ids, Inr stocks)"
| "market_stocks_loop U warehouse_id date (w # ws) offer_ids stocks =
     (if watch_code w \<in> set offer_ids then
        (case stock_of_count U (watch_quantity w) of
           Inl e \<Rightarrow> (offer_ids, Inl e)
         | Inr n \<Rightarrow>
             market_stocks_loop U warehouse_id date ws (remove1 (watch_code w) offer_ids)
               (stocks @
                  [\<lparr>sku = watch_code w, warehouseId = warehouse_id,
                    items = [\<lparr>item_count = n, item_type = lit ''FIT'',
                              item_updatedAt = date\<rparr>]\<rparr>]))
      else market_stocks_loop U warehouse_id date ws offer_ids stocks)"

definition market_create_stocks ::
  "interpreter \<Rightarrow> pystr \<Rightarrow> watch list \<Rightarrow> pystr list \<Rightarrow> pystr
     \<Rightarrow> pystr list \<times> (exn + market_stock list)" where
  "market_create_stocks U date watch_remnants offer_ids warehouse_id =
     (case market_stocks_loop U warehouse_id date watch_remnants offer_ids [] of
        (ids, Inl e) \<Rightarrow> (ids, Inl e)
      | (ids, Inr stocks) \<Rightarrow>
          (ids, Inr (stocks @
             map (\<lambda>offer_id.
                    \<lparr>sku = offer_id, warehouseId = warehouse_id,
                     items = [\<lparr>item_count = 0, item_type = lit ''FIT'',
                               item_updatedAt = date\<rparr>]\<rparr>) ids)))"

text \<open>The price is \<open>int(price_conversion(...))\<close> here, so a price without digits raises.\<close>

fun market_create_prices ::
  "interpreter \<Rightarrow> watch list \<Rightarrow> pystr list \<Rightarrow> exn + market_price list" where
  "market_create_prices U [] offer_ids = Inr []"
| "market_create_prices U (w # ws) offer_ids =
     (if watch_code w \<in> set offer_ids then
        (case price_conversion (watch_price w) of
           Inl e \<Rightarrow> Inl e
         | Inr p \<Rightarrow>
             (case py_int U p of
                Inl e \<Rightarrow> Inl e
              | Inr v \<Rightarrow>
                  (case market_create_prices U ws offer_ids of
                     Inl e \<Rightarrow> Inl e
                   | Inr prices \<Rightarrow>
                       Inr (\<lparr>price_id = watch_code w, price_value = v,
                             price_currencyId = lit ''RUR''\<rparr> # prices))))
      else market_create_prices U ws offer_ids)"

section \<open>The marketplaces as an environment\<close>

text \<open>
  The HTTP calls, the feed download and \<open>print\<close> are the effects of a run. A run is
  modelled with the list of the effects it has performed so far (its trace); the answer of
  the outside world to a call may depend on everything that happened before, so each
  answer is a function of the trace. An answer is a value or the exception that the call
  raises (\<open>raise_for_status\<close>, a time-out, a broken archive, ...). The account is the
  \<open>client_id\<close> of Ozon or the \<open>campaign_id\<close> of Yandex.Market; the access token is
  left out.
\<close>

datatype report =
    Timeout_Message
  | Connection_Message exn
  | Error_2_Message exn

datatype ('s, 'p) event =
    Get_Product_List pystr pystr
  | Download_Stock
  | Update_Stocks pystr "'s list"
  | Update_Price pystr "'p list"
  | Print report

record ('s, 'p, 'page) world =
  get_product_list :: "('s, 'p) event list \<Rightarrow> pystr \<Rightarrow> pystr \<Rightarrow> exn + 'page"
  download_stock :: "('s, 'p) event list \<Rightarrow> exn + watch list"
  update_stocks :: "('s, 'p) event list \<Rightarrow> pystr \<Rightarrow> 's list \<Rightarrow> exn option"
  update_price :: "('s, 'p) event list \<Rightarrow> pystr \<Rightarrow> 'p list \<Rightarrow> exn option"
  utcnow :: "('s, 'p) event list \<Rightarrow> pystr"

text \<open>
  \<open>for batch in batches: call(batch)\<close>: the calls are made in order and the first
  exception ends the loop. The result is the trace and the exception, if one was raised.
\<close>

fun submit_batches ::
  "('e list \<Rightarrow> 'b \<Rightarrow> exn option) \<Rightarrow> ('b \<Rightarrow> 'e) \<Rightarrow> 'b list \<Rightarrow> 'e list
     \<Rightarrow> 'e list \<times> exn option" where
  "submit_batches call ev [] tr = (tr, None)"
| "submit_batches call ev (b # bs) tr =
     (case call tr b of
        Some e \<Rightarrow> (tr @ [ev b], Some e)
      | None \<Rightarrow> submit_batches call ev bs (tr @ [ev b]))"

text \<open>\<open>for some in list(divide(payload, n)): call(some)\<close>\<close>

definition push_in_batches ::
  "('e list \<Rightarrow> 'b list \<Rightarrow> exn option) \<Rightarrow> ('b list \<Rightarrow> 'e) \<Rightarrow> nat \<Rightarrow> 'b list \<Rightarrow> 'e list
     \<Rightarrow> 'e list \<times> exn option" where
  "push_in_batches call ev n payload tr =
     (case divide payload n of
        Inl e \<Rightarrow> (tr, Some e)
      | Inr batches \<Rightarrow> submit_batches call ev batches tr)"

text \<open>
  The three \<open>except\<close> clauses of both \<open>main\<close> functions, in their order: ReadTimeout,
  ConnectionError, Exception. Each prints and the run ends.
\<close>

definition handler :: "exn \<Rightarrow> report" where
  "handler e =
     (if e = ReadTimeout then Timeout_Message
      else if e = ConnectionError then Connection_Message e
      else Error_2_Message e)"

text \<open>A call of an \<open>async def\<close> function runs nothing: it returns a coroutine object,
  which holds the body for a later \<open>await\<close>.\<close>

datatype 'a coroutine = Coroutine 'a

section \<open>seller.py: the Ozon driver\<close>

text \<open>What \<open>get_product_list\<close> returns, as far as it is read: the \<open>offer_id\<close> of each
  item, \<open>total\<close> and \<open>last_id\<close>.\<close>

record ozon_page =
  page_items :: "pystr list"
  page_total :: nat
  page_last_id :: pystr

type_synonym ozon_event = "(ozon_stock, ozon_price) event"
type_synonym ozon_world = "(ozon_stock, ozon_price, ozon_page) world"

text \<open>
  The \<open>while True\<close> loop of \<open>get_offer_ids\<close>: it ends when \<open>total\<close> equals the number of
  products collected, and not before; a run in which that never happens does not return
  (the value \<open>None\<close>).
\<close>

partial_function (option) seller_get_offer_ids_loop ::
  "ozon_world \<Rightarrow> pystr \<Rightarrow> pystr \<Rightarrow> pystr list \<Rightarrow> ozon_event list
     \<Rightarrow> (ozon_event list \<times> (exn + pystr list)) option" where
  "seller_get_offer_ids_loop W client_id last_id product_list tr =
     (case get_product_list W tr client_id last_id of
        Inl e \<Rightarrow> Some (tr @ [Get_Product_List client_id last_id], Inl e)
      | Inr some_prod \<Rightarrow>
          if page_total some_prod = length (product_list @ page_items some_prod)
          then Some (tr @ [Get_Product_List client_id last_id],
                     Inr (product_list @ page_items some_prod))
          else seller_get_offer_ids_loop W client_id (page_last_id some_prod)
                 (product_list @ page_items some_prod)
                 (tr @ [Get_Product_List client_id last_id]))"

definition seller_get_offer_ids ::
  "ozon_world \<Rightarrow> pystr \<Rightarrow> ozon_event list \<Rightarrow> (ozon_event list \<times> (exn + pystr list)) option" where
  "seller_get_offer_ids W client_id tr = seller_get_offer_ids_loop W client_id [] [] tr"

text \<open>
  The body of \<open>upload_prices\<close> and of \<open>upload_stocks\<close> (what runs when the coroutine is
  awaited). \<open>upload_stocks\<close> returns the pair \<open>(not_empty, stocks)\<close>. \<open>main\<close> calls
  neither of them.
\<close>

definition seller_upload_prices ::
  "ozon_world \<Rightarrow> watch list \<Rightarrow> pystr \<Rightarrow> ozon_event list
     \<Rightarrow> (ozon_event list \<times> (exn + ozon_price list)) option" where
  "seller_upload_prices W watch_remnants client_id tr =
     (case seller_get_offer_ids W client_id tr of
        None \<Rightarrow> None
      | Some (tr1, Inl e) \<Rightarrow> Some (tr1, Inl e)
      | Some (tr1, Inr offer_ids) \<Rightarrow>
          Some (case seller_create_prices watch_remnants offer_ids of
                  Inl e \<Rightarrow> (tr1, Inl e)
                | Inr prices \<Rightarrow>
                    (case push_in_batches (\<lambda>t. update_price W t client_id)
                            (Update_Price client_id) 1000 prices tr1 of
                       (tr2, Some e) \<Rightarrow> (tr2, Inl e)
                     | (tr2, None) \<Rightarrow> (tr2, Inr prices))))"

definition seller_upload_stocks ::
  "interpreter \<Rightarrow> ozon_world \<Rightarrow> watch list \<Rightarrow> pystr \<Rightarrow> ozon_event list
     \<Rightarrow> (ozon_event list \<times> (exn + ozon_stock list \<times> ozon_stock list)) option" where
  "seller_upload_stocks U W watch_remnants client_id tr =
     (case seller_get_offer_ids W client_id tr of
        None \<Rightarrow> None
      | Some (tr1, Inl e) \<Rightarrow> Some (tr1, Inl e)
      | Some (tr1, Inr offer_ids) \<Rightarrow>
          Some (case seller_create_stocks U watch_remnants offer_ids of
                  (offer_ids', Inl e) \<Rightarrow> (tr1, Inl e)
                | (offer_ids', Inr stocks) \<Rightarrow>
                    (case push_in_batches (\<lambda>t. update_stocks W t client_id)
                            (Update_Stocks client_id) 100 stocks tr1 of
                       (tr2, Some e) \<Rightarrow> (tr2, Inl e)
                     | (tr2, None) \<Rightarrow>
                         (tr2, Inr (filter (\<lambda>s. stock s \<noteq> 0) stocks, stocks)))))"

text \<open>
  The statements inside \<open>try\<close> of \<open>main\<close>: the trace, and the exception that leaves the
  block if there is one. \<open>create_prices\<close> receives the list \<open>offer_ids\<close> as
  \<open>create_stocks\<close> has left it.
\<close>

definition seller_main_try ::
  "interpreter \<Rightarrow> ozon_world \<Rightarrow> pystr \<Rightarrow> (ozon_event list \<times> exn option) option" where
  "seller_main_try U W client_id =
     (case seller_get_offer_ids W client_id [] of
        None \<Rightarrow> None
      | Some (tr1, Inl e) \<Rightarrow> Some (tr1, Some e)
      | Some (tr1, Inr offer_ids) \<Rightarrow>
          Some (case download_stock W tr1 of
                  Inl e \<Rightarrow> (tr1 @ [Download_Stock], Some e)
                | Inr watch_remnants \<Rightarrow>
                    (case seller_create_stocks U watch_remnants offer_ids of
                       (offer_ids', Inl e) \<Rightarrow> (tr1 @ [Download_Stock], Some e)
                     | (offer_ids', Inr stocks) \<Rightarrow>
                         (case push_in_batches (\<lambda>t. update_stocks W t client_id)
                                 (Update_Stocks client_id) 100 stocks (tr1 @ [Download_Stock]) of
                            (tr2, Some e) \<Rightarrow> (tr2, Some e)
                          | (tr2, None) \<Rightarrow>
                              (case seller_create_prices watch_remnants offer_ids' of
                                 Inl e \<Rightarrow> (tr2, Some e)
                               | Inr prices \<Rightarrow>
                                   push_in_batches (\<lambda>t. update_price W t client_id)
                                     (Update_Price client_id) 900 prices tr2)))))"

text \<open>
  \<open>main\<close> after the environment variables are read: the trace of the run and the
  exception that escapes from \<open>main\<close>, if one does; \<open>None\<close> when the run does not end.
\<close>

definition seller_main ::
  "interpreter \<Rightarrow> ozon_world \<Rightarrow> pystr \<Rightarrow> (ozon_event list \<times> exn option) option" where
  "seller_main U W client_id =
     (case seller_main_try U W client_id of
        None \<Rightarrow> None
      | Some (tr, None) \<Rightarrow> Some (tr, None)
      | Some (tr, Some e) \<Rightarrow> Some (tr @ [Print (handler e)], None))"

section \<open>market.py: the Yandex.Market driver\<close>

text \<open>What \<open>get_product_list\<close> returns, as far as it is read: the \<open>shopSku\<close> of each
  entry and \<open>nextPageToken\<close>, which may be absent.\<close>

record market_page =
  offerMappingEntries :: "pystr list"
  nextPageToken :: "pystr option"

type_synonym market_event = "(market_stock, market_price) event"
type_synonym market_world = "(market_stock, market_price, market_page) world"

text \<open>The loop ends at \<open>if not page: break\<close>: the token is absent or empty.\<close>

partial_function (option) market_get_offer_ids_loop ::
  "market_world \<Rightarrow> pystr \<Rightarrow> pystr \<Rightarrow> pystr list \<Rightarrow> market_event list
     \<Rightarrow> (market_event list \<times> (exn + pystr list)) option" where
  "market_get_offer_ids_loop W campaign_id page product_list tr =
     (case get_product_list W tr campaign_id page of
        Inl e \<Rightarrow> Some (tr @ [Get_Product_List campaign_id page], Inl e)
      | Inr some_prod \<Rightarrow>
          (case nextPageToken some_prod of
             None \<Rightarrow> Some (tr @ [Get_Product_List campaign_id page],
                           Inr (product_list @ offerMappingEntries some_prod))
           | Some next_page \<Rightarrow>
               if next_page = []
               then Some (tr @ [Get_Product_List campaign_id page],
                          Inr (product_list @ offerMappingEntries some_prod))
               else market_get_offer_ids_loop W campaign_id next_page
                      (product_list @ offerMappingEntries some_prod)
                      (tr @ [Get_Product_List campaign_id page])))"

definition market_get_offer_ids ::
  "market_world \<Rightarrow> pystr \<Rightarrow> market_event list
     \<Rightarrow> (market_event list \<times> (exn + pystr list)) option" where
  "market_get_offer_ids W campaign_id tr = market_get_offer_ids_loop W campaign_id [] [] tr"

definition market_upload_prices ::
  "interpreter \<Rightarrow> market_world \<Rightarrow> watch list \<Rightarrow> pystr \<Rightarrow> market_event list
     \<Rightarrow> (market_event list \<times> (exn + market_price list)) option" where
  "market_upload_prices U W watch_remnants campaign_id tr =
     (case market_get_offer_ids W campaign_id tr of
        None \<Rightarrow> None
      | Some (tr1, Inl e) \<Rightarrow> Some (tr1, Inl e)
      | Some (tr1, Inr offer_ids) \<Rightarrow>
          Some (case market_create_prices U watch_remnants offer_ids of
                  Inl e \<Rightarrow> (tr1, Inl e)
                | Inr prices \<Rightarrow>
                    (case push_in_batches (\<lambda>t. update_price W t campaign_id)
                            (Update_Price campaign_id) 500 prices tr1 of
                       (tr2, Some e) \<Rightarrow> (tr2, Inl e)
                     | (tr2, None) \<Rightarrow> (tr2, Inr prices))))"

text \<open>In \<open>upload_stocks\<close> the filter reads \<open>stock.get("items")[0]\<close>; every entry that
  \<open>create_stocks\<close> builds has exactly one item, so the subscript finds it.\<close>

definition market_upload_stocks ::
  "interpreter \<Rightarrow> market_world \<Rightarrow> watch list \<Rightarrow> pystr \<Rightarrow> pystr \<Rightarrow> market_event list
     \<Rightarrow> (market_event list \<times> (exn + market_stock list \<times> market_stock list)) option" where
  "market_upload_stocks U W watch_remnants campaign_id warehouse_id tr =
     (case market_get_offer_ids W campaign_id tr of
        None \<Rightarrow> None
      | Some (tr1, Inl e) \<Rightarrow> Some (tr1, Inl e)
      | Some (tr1, Inr offer_ids) \<Rightarrow>
          Some (case market_create_stocks U (utcnow W tr1) watch_remnants offer_ids warehouse_id of
                  (offer_ids', Inl e) \<Rightarrow> (tr1, Inl e)
                | (offer_ids', Inr stocks) \<Rightarrow>
                    (case push_in_batches (\<lambda>t. update_stocks W t campaign_id)
                            (Update_Stocks campaign_id) 2000 stocks tr1 of
                       (tr2, Some e) \<Rightarrow> (tr2, Inl e)
                     | (tr2, None) \<Rightarrow>
                         (tr2, Inr (filter (\<lambda>s. (case items s of
                                                    [] \<Rightarrow> False
                                                  | i # _ \<Rightarrow> item_count i \<noteq> 0)) stocks,
                                    stocks)))))"

text \<open>
  One of the two blocks of \<open>main\<close> (FBS, then DBS): the offer ids of the campaign, the
  stocks, their submission, and the call \<open>upload_prices(...)\<close>, which is not awaited: the
  coroutine object is dropped and its body never runs.
\<close>

definition market_main_campaign ::
  "interpreter \<Rightarrow> market_world \<Rightarrow> watch list \<Rightarrow> pystr \<Rightarrow> pystr \<Rightarrow> market_event list
     \<Rightarrow> (market_event list \<times> exn option) option" where
  "market_main_campaign U W watch_remnants campaign_id warehouse_id tr =
     (case market_get_offer_ids W campaign_id tr of
        None \<Rightarrow> None
      | Some (tr1, Inl e) \<Rightarrow> Some (tr1, Some e)
      | Some (tr1, Inr offer_ids) \<Rightarrow>
          Some (case market_create_stocks U (utcnow W tr1) watch_remnants offer_ids warehouse_id of
                  (offer_ids', Inl e) \<Rightarrow> (tr1, Some e)
                | (offer_ids', Inr stocks) \<Rightarrow>
                    (case push_in_batches (\<lambda>t. update_stocks W t campaign_id)
                            (Update_Stocks campaign_id) 2000 stocks tr1 of
                       (tr2, Some e) \<Rightarrow> (tr2, Some e)
                     | (tr2, None) \<Rightarrow>
                         (let dropped = Coroutine (market_upload_prices U W watch_remnants campaign_id)
                          in (tr2, None)))))"

definition market_main_try ::
  "interpreter \<Rightarrow> market_world \<Rightarrow> watch list \<Rightarrow> pystr \<Rightarrow> pystr \<Rightarrow> pystr \<Rightarrow> pystr
     \<Rightarrow> market_event list \<Rightarrow> (market_event list \<times> exn option) option" where
  "market_main_try U W watch_remnants campaign_fbs_id campaign_dbs_id
       warehouse_fbs_id warehouse_dbs_id tr =
     (case market_main_campaign U W watch_remnants campaign_fbs_id warehouse_fbs_id tr of
        None \<Rightarrow> None
      | Some (tr1, Some e) \<Rightarrow> Some (tr1, Some e)
      | Some (tr1, None) \<Rightarrow>
          market_main_campaign U W watch_remnants campaign_dbs_id warehouse_dbs_id tr1)"

text \<open>
  \<open>main\<close> after the environment variables are read. \<open>download_stock()\<close> stands before
  the \<open>try\<close>, so an exception of the download leaves \<open>main\<close>.
\<close>

definition market_main ::
  "interpreter \<Rightarrow> market_world \<Rightarrow> pystr \<Rightarrow> pystr \<Rightarrow> pystr \<Rightarrow> pystr
     \<Rightarrow> (market_event list \<times> exn option) option" where
  "market_main U W campaign_fbs_id campaign_dbs_id warehouse_fbs_id warehouse_dbs_id =
     (case download_stock W [] of
        Inl e \<Rightarrow> Some ([Download_Stock], Some e)
      | Inr watch_remnants \<Rightarrow>
          (case market_main_try U W watch_remnants campaign_fbs_id campaign_dbs_id
                  warehouse_fbs_id warehouse_dbs_id [Download_Stock] of
             None \<Rightarrow> None
           | Some (tr, None) \<Rightarrow> Some (tr, None)
           | Some (tr, Some e) \<Rightarrow> Some (tr @ [Print (handler e)], None)))"

section \<open>Auxiliary definitions for the proofs\<close>

text \<open>
  The two \<open>create_stocks\<close> loops differ in the payload entry they build only. This is their
  common shape, with the entry as a parameter; it is used to prove facts about both at
  once, after each loop is shown to be an instance of it.
\<close>

fun reconcile_loop ::
  "(pystr \<Rightarrow> int \<Rightarrow> 'a) \<Rightarrow> interpreter \<Rightarrow> watch list \<Rightarrow> pystr list \<Rightarrow> 'a list
     \<Rightarrow> pystr list \<times> (exn + 'a list)" where
  "reconcile_loop entry U [] offer_ids stocks = (offer_ids, Inr stocks)"
| "reconcile_loop entry U (w # ws) offer_ids stocks =
     (if watch_code w \<in> set offer_ids then
        (case stock_of_count U (watch_quantity w) of
           Inl e \<Rightarrow> (offer_ids, Inl e)
         | Inr n \<Rightarrow>
             reconcile_loop entry U ws (remove1 (watch_code w) offer_ids)
               (stocks @ [entry (watch_code w) n]))
      else reconcile_loop entry U ws offer_ids stocks)"

definition ozon_stock_entry :: "pystr \<Rightarrow> int \<Rightarrow> ozon_stock" where
  "ozon_stock_entry offer_id n = \<lparr>stock_offer_id = offer_id, stock = n\<rparr>"

definition market_stock_entry :: "pystr \<Rightarrow> pystr \<Rightarrow> pystr \<Rightarrow> int \<Rightarrow> market_stock" where
  "market_stock_entry warehouse_id date offer_id n =
     \<lparr>sku = offer_id, warehouseId = warehouse_id,
      items = [\<lparr>item_count = n, item_type = lit ''FIT'', item_updatedAt = date\<rparr>]\<rparr>"

section \<open>Concrete inputs for the examples\<close>

text \<open>An interpreter that knows no white space and no digit beyond ASCII, with the default
  limit of 4300 digits.\<close>

definition plain_tables :: interpreter where
  "plain_tables =
     \<lparr>uni_space = (\<lambda>c. False), uni_decimal = (\<lambda>c. None), max_str_digits = 4300\<rparr>"

text \<open>The end-to-end scenario of the specification: the offer ids \<open>001\<close> and \<open>002\<close>, and a
  feed of one record with code \<open>001\<close>, quantity \<open>10\<close> and the price \<open>5'990.00\<close> followed by
  the currency in Cyrillic.\<close>

definition scenario_offer_ids :: "pystr list" where
  "scenario_offer_ids = [lit ''001'', lit ''002'']"

definition scenario_feed :: "watch list" where
  "scenario_feed =
     [\<lparr>watch_code = lit ''001'', watch_quantity = lit ''10'',
       watch_price = lit ''5'990.00 '' @ [0x440, 0x443, 0x431] @ lit ''.''\<rparr>]"

text \<open>An offer id listed twice, and a feed with one record of that code.\<close>

definition twice_offer_ids :: "pystr list" where
  "twice_offer_ids = [lit ''001'', lit ''001'']"

definition twice_feed :: "watch list" where
  "twice_feed =
     [\<lparr>watch_code = lit ''001'', watch_quantity = lit ''5'', watch_price = lit ''100.00''\<rparr>]"

text \<open>The price entry that \<open>create_prices\<close> of seller.py builds for a record, with the
  price written by the specification's algorithm.\<close>

definition ozon_price_entry :: "watch \<Rightarrow> ozon_price" where
  "ozon_price_entry w =
     \<lparr>auto_action_enabled = lit ''UNKNOWN'', currency_code = lit ''RUB'',
      price_offer_id = watch_code w, old_price = lit ''0'',
      price = spec_price_normalizer (watch_price w)\<rparr>"

text \<open>The scenario's feed with one more record, whose code \<open>003\<close> is no offer id and whose
  quantity and price are not numbers.\<close>

definition scenario_feed_extra :: "watch list" where
  "scenario_feed_extra =
     scenario_feed
     @ [\<lparr>watch_code = lit ''003'', watch_quantity = lit ''many'', watch_price = lit ''n/a''\<rparr>]"

section \<open>Reading a trace\<close>

text \<open>The batches of price updates and of stock updates that a trace holds, in order.\<close>

fun price_batch :: "('s, 'p) event \<Rightarrow> 'p list option" where
  "price_batch (Update_Price account b) = Some b"
| "price_batch (Get_Product_List account page) = None"
| "price_batch Download_Stock = None"
| "price_batch (Update_Stocks account b) = None"
| "price_batch (Print r) = None"

fun stock_batch :: "('s, 'p) event \<Rightarrow> 's list option" where
  "stock_batch (Update_Stocks account b) = Some b"
| "stock_batch (Get_Product_List account page) = None"
| "stock_batch Download_Stock = None"
| "stock_batch (Update_Price account b) = None"
| "stock_batch (Print r) = None"

definition price_batches :: "('s, 'p) event list \<Rightarrow> 'p list list" where
  "price_batches tr = List.map_filter price_batch tr"

definition stock_batches :: "('s, 'p) event list \<Rightarrow> 's list list" where
  "stock_batches tr = List.map_filter stock_batch tr"

text \<open>A request for a page of the products of the given account.\<close>

fun fetch_of :: "pystr \<Rightarrow> ('s, 'p) event \<Rightarrow> bool" where
  "fetch_of account (Get_Product_List account' page) = (account' = account)"
| "fetch_of account Download_Stock = False"
| "fetch_of account (Update_Stocks account' b) = False"
| "fetch_of account (Update_Price account' b) = False"
| "fetch_of account (Print r) = False"

text \<open>The events of the first half of a run: the downloads and the stock updates.\<close>

fun stock_phase :: "('s, 'p) event \<Rightarrow> bool" where
  "stock_phase (Get_Product_List account page) = True"
| "stock_phase Download_Stock = True"
| "stock_phase (Update_Stocks account b) = True"
| "stock_phase (Update_Price account b) = False"
| "stock_phase (Print r) = False"

text \<open>Batches sized by \<open>n\<close>: none is empty or longer than \<open>n\<close>, and every batch that is
  followed by another one has exactly \<open>n\<close> items.\<close>

definition batches_of_size :: "nat \<Rightarrow> 'a list list \<Rightarrow> bool" where
  "batches_of_size n bs \<longleftrightarrow>
     (\<forall>b \<in> set bs. b \<noteq> [] \<and> length b \<le> n)
     \<and> (\<forall>i. Suc i < length bs \<longrightarrow> length (bs ! i) = n)"







section \<open>Concrete marketplaces for the examples\<close>

text \<open>The scenario of the specification at Ozon: one page with both offer ids, the feed of
  one record, and every update accepted.\<close>

definition scenario_ozon :: ozon_world where
  "scenario_ozon =
     \<lparr>get_product_list = (\<lambda>tr account last_id.
         Inr \<lparr>page_items = scenario_offer_ids, page_total = 2, page_last_id = lit ''002''\<rparr>),
      download_stock = (\<lambda>tr. Inr scenario_feed),
      update_stocks = (\<lambda>tr account b. None),
      update_price = (\<lambda>tr account b. None),
      utcnow = (\<lambda>tr. lit ''2020-10-10T10:00:00Z'')\<rparr>"

text \<open>The same at Yandex.Market, for both campaigns.\<close>

definition scenario_market :: market_world where
  "scenario_market =
     \<lparr>get_product_list = (\<lambda>tr account page.
         Inr \<lparr>offerMappingEntries = scenario_offer_ids, nextPageToken = None\<rparr>),
      download_stock = (\<lambda>tr. Inr scenario_feed),
      update_stocks = (\<lambda>tr account b. None),
      update_price = (\<lambda>tr account b. None),
      utcnow = (\<lambda>tr. lit ''2020-10-10T10:00:00Z'')\<rparr>"

text \<open>Marketplaces where the download of the feed fails with a connection error.\<close>

definition offline_ozon :: ozon_world where
  "offline_ozon = scenario_ozon\<lparr>download_stock := (\<lambda>tr. Inl ConnectionError)\<rparr>"

definition offline_market :: market_world where
  "offline_market = scenario_market\<lparr>download_stock := (\<lambda>tr. Inl ConnectionError)\<rparr>"

text \<open>An Ozon account that lists the offer id \<open>001\<close> 902 times, with a feed of 901 records
  of that code.\<close>

definition repeated_watch :: watch where
  "repeated_watch =
     \<lparr>watch_code = lit ''001'', watch_quantity = lit ''5'', watch_price = lit ''100.00''\<rparr>"

definition repeated_ozon :: ozon_world where
  "repeated_ozon =
     \<lparr>get_product_list = (\<lambda>tr account last_id.
         Inr \<lparr>page_items = replicate 902 (lit ''001''), page_total = 902,
              page_last_id = lit ''001''\<rparr>),
      download_stock = (\<lambda>tr. Inr (replicate 901 repeated_watch)),
      update_stocks = (\<lambda>tr account b. None),
      update_price = (\<lambda>tr account b. None),
      utcnow = (\<lambda>tr. [])\<rparr>"





text \<open>The payloads that the specification expects in its scenario: the stocks 10 and 0 for
  the two offer ids, and the price 5990 for the first one.\<close>

definition scenario_stocks :: "ozon_stock list" where
  "scenario_stocks =
     [\<lparr>stock_offer_id = lit ''001'', stock = 10\<rparr>, \<lparr>stock_offer_id = lit ''002'', stock = 0\<rparr>]"

definition scenario_prices :: "ozon_price list" where
  "scenario_prices =
     [\<lparr>auto_action_enabled = lit ''UNKNOWN'', currency_code = lit ''RUB'',
       price_offer_id = lit ''001'', old_price = lit ''0'', price = lit ''5990''\<rparr>]"

definition scenario_skus :: "pystr \<Rightarrow> market_stock list" where
  "scenario_skus warehouse_id =
     [\<lparr>sku = lit ''001'', warehouseId = warehouse_id,
       items = [\<lparr>item_count = 10, item_type = lit ''FIT'',
                 item_updatedAt = lit ''2020-10-10T10:00:00Z''\<rparr>]\<rparr>,
      \<lparr>sku = lit ''002'', warehouseId = warehouse_id,
       items = [\<lparr>item_count = 0, item_type = lit ''FIT'',
                 item_updatedAt = lit ''2020-10-10T10:00:00Z''\<rparr>]\<rparr>]"

definition scenario_offer_prices :: "market_price list" where
  "scenario_offer_prices =
     [\<lparr>price_id = lit ''001'', price_value = 5990, price_currencyId = lit ''RUR''\<rparr>]"

section \<open>The texts that \<open>int\<close> accepts, stated without the parser\<close>

text \<open>
  A numeric text, as the library reference describes the argument of \<open>int\<close>: decimal
  digits, with single underscores allowed between digits, optionally preceded by a sign
  (nothing between the sign and the digits) and surrounded by white space. The white space
  is the six ASCII characters and the Unicode white space beyond ASCII; a digit is an ASCII
  digit or a Unicode decimal digit beyond ASCII, with its value.
\<close>

definition int_space :: "interpreter \<Rightarrow> nat \<Rightarrow> bool" where
  "int_space U c \<longleftrightarrow> c = 32 \<or> (9 \<le> c \<and> c \<le> 13) \<or> (128 \<le> c \<and> uni_space U c)"

definition int_digit :: "interpreter \<Rightarrow> nat \<Rightarrow> nat option" where
  "int_digit U c =
     (if 48 \<le> c \<and> c \<le> 57 then Some (c - 48)
      else if c < 128 \<or> uni_space U c then None
      else uni_decimal U c)"

text \<open>No two underscores in a row.\<close>

fun no_double_underscore :: "pystr \<Rightarrow> bool" where
  "no_double_underscore (x # y # zs) = (\<not> (x = 95 \<and> y = 95) \<and> no_double_underscore (y # zs))"
| "no_double_underscore [x] = True"
| "no_double_underscore [] = True"

text \<open>The part after the sign: it begins and ends with a digit, holds digits and
  underscores only, and no two underscores in a row.\<close>

definition numeric_body :: "interpreter \<Rightarrow> pystr \<Rightarrow> bool" where
  "numeric_body U b \<longleftrightarrow>
     b \<noteq> [] \<and> int_digit U (hd b) \<noteq> None \<and> int_digit U (last b) \<noteq> None
     \<and> (\<forall>c \<in> set b. int_digit U c \<noteq> None \<or> c = 95)
     \<and> no_double_underscore b"

text \<open>The text without the white space at its two ends, its sign and what follows it.\<close>

definition int_strip :: "interpreter \<Rightarrow> pystr \<Rightarrow> pystr" where
  "int_strip U s = rev (dropWhile (int_space U) (rev (dropWhile (int_space U) s)))"

definition int_negative :: "interpreter \<Rightarrow> pystr \<Rightarrow> bool" where
  "int_negative U s = (case int_strip U s of [] \<Rightarrow> False | c # cs \<Rightarrow> c = 45)"

definition int_body :: "interpreter \<Rightarrow> pystr \<Rightarrow> pystr" where
  "int_body U s =
     (case int_strip U s of
        [] \<Rightarrow> []
      | c # cs \<Rightarrow> if c = 43 \<or> c = 45 then cs else c # cs)"

definition numeric_text :: "interpreter \<Rightarrow> pystr \<Rightarrow> bool" where
  "numeric_text U s \<longleftrightarrow> numeric_body U (int_body U s)"

text \<open>The digits of a numeric text, as numbers, and what they denote in base 10: each
  digit counts with the power of ten of its position.\<close>

definition numeric_digits :: "interpreter \<Rightarrow> pystr \<Rightarrow> nat list" where
  "numeric_digits U s = List.map_filter (int_digit U) (int_body U s)"

fun positional :: "nat list \<Rightarrow> nat" where
  "positional [] = 0"
| "positional (d # ds) = d * 10 ^ length ds + positional ds"

definition numeric_value :: "interpreter \<Rightarrow> pystr \<Rightarrow> int" where
  "numeric_value U s =
     (if int_negative U s then - int (positional (numeric_digits U s))
      else int (positional (numeric_digits U s)))"

text \<open>The interpreter's limit: a text with more digits than \<open>max_str_digits\<close> is refused,
  unless the limit is 0.\<close>

definition within_digit_limit :: "interpreter \<Rightarrow> pystr \<Rightarrow> bool" where
  "within_digit_limit U s \<longleftrightarrow>
     max_str_digits U = 0 \<or> length (numeric_digits U s) \<le> max_str_digits U"

text \<open>What the interpreter guarantees of its configuration: a decimal digit has a value
  below ten, and a limit on the digits, when set, is at least 640.\<close>

definition interpreter_ok :: "interpreter \<Rightarrow> bool" where
  "interpreter_ok U \<longleftrightarrow>
     (\<forall>c. case uni_decimal U c of None \<Rightarrow> True | Some d \<Rightarrow> d < 10)
     \<and> (max_str_digits U = 0 \<or> 640 \<le> max_str_digits U)"

text \<open>Auxiliary notions for the proof that the parser accepts exactly the numeric texts:
  the same grammar over the text brought to ASCII, and the states of the scan.\<close>

definition body_char :: "nat \<Rightarrow> bool" where
  "body_char c \<longleftrightarrow> ascii_digit c \<or> c = 95"

definition tail_ok :: "pystr \<Rightarrow> bool" where
  "tail_ok b \<longleftrightarrow> (\<forall>c \<in> set b. body_char c) \<and> (b = [] \<or> ascii_digit (last b))
     \<and> no_double_underscore b"

definition ascii_body :: "pystr \<Rightarrow> bool" where
  "ascii_body b \<longleftrightarrow> b \<noteq> [] \<and> ascii_digit (hd b) \<and> tail_ok b"

definition decimal_value :: "pystr \<Rightarrow> nat" where
  "decimal_value b = foldl (\<lambda>a c. 10 * a + (c - 48)) 0 (filter ascii_digit b)"

definition strip_right :: "pystr \<Rightarrow> pystr" where
  "strip_right s = rev (dropWhile ascii_space (rev s))"

definition good_char :: "interpreter \<Rightarrow> nat \<Rightarrow> bool" where
  "good_char U c \<longleftrightarrow> c < 128 \<or> uni_space U c \<or> uni_decimal U c \<noteq> None"

definition ascii_of :: "interpreter \<Rightarrow> nat \<Rightarrow> nat" where
  "ascii_of U c =
     (if c < 128 then c else if uni_space U c then 32
      else (case uni_decimal U c of None \<Rightarrow> 63 | Some d \<Rightarrow> 48 + d))"

definition gen_strip :: "(nat \<Rightarrow> bool) \<Rightarrow> pystr \<Rightarrow> pystr" where
  "gen_strip sp s = rev (dropWhile sp (rev (dropWhile sp s)))"

definition gen_body :: "(nat \<Rightarrow> bool) \<Rightarrow> pystr \<Rightarrow> pystr" where
  "gen_body sp s =
     (case gen_strip sp s of
        [] \<Rightarrow> []
      | c # cs \<Rightarrow> if c = 43 \<or> c = 45 then cs else c # cs)"

definition gen_negative :: "(nat \<Rightarrow> bool) \<Rightarrow> pystr \<Rightarrow> bool" where
  "gen_negative sp s = (case gen_strip sp s of [] \<Rightarrow> False | c # cs \<Rightarrow> c = 45)"

definition over_limit :: "interpreter \<Rightarrow> nat \<Rightarrow> bool" where
  "over_limit U k \<longleftrightarrow> 640 < k \<and> 0 < max_str_digits U \<and> max_str_digits U < k"

section \<open>The price normalizer against the specification's algorithm\<close>

lemma str_split_first:
  "\<exists>ps. str_split sep s = takeWhile (\<lambda>c. c \<noteq> sep) s # ps"
  by (induction s) (auto split: list.splits)

lemma price_conversion_total:
  "price_conversion s = Inr (filter ascii_digit (takeWhile (\<lambda>c. c \<noteq> 46) s))"
  using str_split_first [of 46 s]
  by (auto simp: price_conversion_def re_sub_non_digit_def)

text \<open>
  Claim C5. For every string, \<open>price_conversion\<close> returns what the reference algorithm
  of the specification returns (the prefix before the first point, non-digits deleted) and
  raises nothing; on the two examples of the specification it yields \<open>5990\<close> and
  \<open>12890\<close> (the first one ends in the Cyrillic letters U+0440 U+0443 U+0431 and a
  point); and when no digit stands before the first point, the result is the empty string.
\<close>

theorem price_conversion_refines_spec:
  "price_conversion s = Inr (spec_price_normalizer s)
   \<and> price_conversion (lit ''5'990.00 '' @ [0x440, 0x443, 0x431] @ lit ''.'') = Inr (lit ''5990'')
   \<and> price_conversion (lit ''12,890.50'') = Inr (lit ''12890'')
   \<and> ((\<forall>c \<in> set (takeWhile (\<lambda>c. c \<noteq> 46) s). \<not> ascii_digit c)
        \<longrightarrow> price_conversion s = Inr [])"
proof -
  have a: "price_conversion s = Inr (spec_price_normalizer s)"
    by (simp add: price_conversion_total spec_price_normalizer_def)
  have b: "price_conversion (lit ''5'990.00 '' @ [0x440, 0x443, 0x431] @ lit ''.'')
             = Inr (lit ''5990'')"
    by (simp add: price_conversion_def re_sub_non_digit_def lit_def ascii_digit_def)
  have c: "price_conversion (lit ''12,890.50'') = Inr (lit ''12890'')"
    by (simp add: price_conversion_def re_sub_non_digit_def lit_def ascii_digit_def)
  have d: "price_conversion s = Inr []"
    if "\<forall>c \<in> set (takeWhile (\<lambda>c. c \<noteq> 46) s). \<not> ascii_digit c"
    using that by (simp add: price_conversion_total filter_empty_conv)
  from a b c d show ?thesis by blast
qed

theorem price_conversion_refines_spec_witness:
  "price_conversion ([0x440, 0x443, 0x431] @ lit ''.50'') = Inr []
   \<and> spec_price_normalizer ([0x440, 0x443, 0x431] @ lit ''.50'') = []"
  using price_conversion_refines_spec [of "[0x440, 0x443, 0x431] @ lit ''.50''"]
  by (simp add: lit_def ascii_digit_def spec_price_normalizer_def)

section \<open>The batcher\<close>

declare range_step.simps [simp del]

lemma range_step_stop: "stop \<le> i \<Longrightarrow> range_step i stop n = []"
  by (subst range_step.simps) simp

lemma range_step_go:
  "0 < n \<Longrightarrow> i < stop \<Longrightarrow> range_step i stop n = i # range_step (i + n) stop n"
  by (subst range_step.simps) simp

lemma range_step_count:
  "0 < n \<Longrightarrow> stop - i \<le> length (range_step i stop n) * n
     \<and> length (range_step i stop n) * n < stop - i + n"
proof (induction i stop n rule: range_step.induct)
  case (1 i stop n)
  show ?case
  proof (cases "stop \<le> i")
    case True
    with 1(2) show ?thesis by (simp add: range_step_stop)
  next
    case False
    then have lt: "i < stop" by simp
    note step = range_step_go [OF 1(2) lt]
    show ?thesis
    proof (cases "stop \<le> i + n")
      case True
      then show ?thesis using lt step by (simp add: range_step_stop, arith)
    next
      case False
      have ih: "stop - (i + n) \<le> length (range_step (i + n) stop n) * n
         \<and> length (range_step (i + n) stop n) * n < stop - (i + n) + n"
        using 1 lt by simp
      show ?thesis unfolding step using ih False by (simp, arith)
    qed
  qed
qed

lemma range_step_map:
  "0 < n \<Longrightarrow> range_step i stop n = map (\<lambda>k. i + k * n) [0..<length (range_step i stop n)]"
proof (induction i stop n rule: range_step.induct)
  case (1 i stop n)
  show ?case
  proof (cases "stop \<le> i")
    case True
    then show ?thesis by (simp add: range_step_stop)
  next
    case False
    then have lt: "i < stop" by simp
    note step = range_step_go [OF 1(2) lt]
    have ih: "range_step (i + n) stop n
       = map (\<lambda>k. (i + n) + k * n) [0..<length (range_step (i + n) stop n)]"
      using 1 lt by simp
    have "map (\<lambda>k. i + k * n) [0..<Suc (length (range_step (i + n) stop n))]
       = i # map (\<lambda>k. (i + n) + k * n) [0..<length (range_step (i + n) stop n)]"
      by (simp add: upt_rec [of 0] map_Suc_upt [symmetric] del: upt_Suc)
    with ih show ?thesis unfolding step by simp
  qed
qed

lemma ceil_div_unique:
  fixes n :: nat
  assumes n: "0 < n" and lo: "L \<le> c * n" and hi: "c * n < L + n"
  shows "c = (L + n - 1) div n"
proof -
  from hi have "c * n \<le> L + n - 1" by simp
  then have a: "c \<le> (L + n - 1) div n"
    using n by (simp add: less_eq_div_iff_mult_less_eq)
  from lo n have "L + n - 1 < Suc c * n" by simp
  then have "(L + n - 1) div n < Suc c"
    using n by (simp only: div_less_iff_less_mult)
  with a show ?thesis by simp
qed

lemma concat_slices:
  "0 < n \<Longrightarrow>
   concat (map (\<lambda>i. slice lst i (i + n)) (range_step i (length lst) n)) = drop i lst"
proof (induction i "length lst" n rule: range_step.induct)
  case (1 i n)
  show ?case
  proof (cases "length lst \<le> i")
    case True
    then show ?thesis by (simp add: range_step_stop)
  next
    case False
    then have lt: "i < length lst" by simp
    have "take n (drop i lst) @ drop (i + n) lst = drop i lst"
      by (metis add.commute append_take_drop_id drop_drop)
    then show ?thesis
      using 1 lt by (simp add: range_step_go slice_def)
  qed
qed

text \<open>The facts about the chunks that the claims on batching share.\<close>

lemma divide_shape:
  assumes n: "0 < n"
  shows "\<exists>chunks. divide lst n = Inr chunks
     \<and> length chunks = (length lst + n - 1) div n
     \<and> length lst \<le> length chunks * n \<and> length chunks * n < length lst + n
     \<and> (\<forall>k. Suc k < length chunks \<longrightarrow> length (chunks ! k) = n)
     \<and> (\<forall>c \<in> set chunks. c \<noteq> [] \<and> length c \<le> n)
     \<and> sum_list (map length chunks) = length lst
     \<and> concat chunks = lst"
proof -
  define L where "L = length lst"
  define starts where "starts = range_step 0 L n"
  define chunks where "chunks = map (\<lambda>i. slice lst i (i + n)) starts"
  have ret: "divide lst n = Inr chunks"
    using n by (simp add: divide_def chunks_def starts_def L_def)
  have len: "length chunks = length starts"
    by (simp add: chunks_def)
  have cnt: "L \<le> length starts * n" "length starts * n < L + n"
    using range_step_count [OF n, of L 0] by (simp_all add: starts_def)
  have ceil: "length chunks = (L + n - 1) div n"
    unfolding len using ceil_div_unique [OF n cnt] .
  have nth_start: "starts ! k = k * n" if "k < length starts" for k
  proof -
    have "starts = map (\<lambda>k. 0 + k * n) [0..<length starts]"
      unfolding starts_def by (rule range_step_map [OF n])
    then have "starts ! k = map (\<lambda>k. 0 + k * n) [0..<length starts] ! k" by simp
    also have "\<dots> = k * n" using that by simp
    finally show ?thesis .
  qed
  have nth_len: "length (chunks ! k) = min n (L - k * n)" if "k < length starts" for k
    using that nth_start [OF that] by (simp add: chunks_def slice_def L_def min.commute)
  have below: "k * n < L" if "k < length starts" for k
  proof -
    from that have "Suc k \<le> length starts" by simp
    then have "Suc k * n \<le> length starts * n" by (rule mult_le_mono1)
    with cnt(2) show ?thesis by simp
  qed
  have full: "length (chunks ! k) = n" if "Suc k < length chunks" for k
  proof -
    from that have k: "k < length starts" and "Suc k < length starts" by (simp_all add: len)
    from below [OF this(2)] have "n \<le> L - k * n" by simp
    with nth_len [OF k] show ?thesis by simp
  qed
  have each: "c \<noteq> [] \<and> length c \<le> n" if "c \<in> set chunks" for c
  proof -
    from that obtain k where k: "k < length chunks" and c: "c = chunks ! k"
      by (auto simp: in_set_conv_nth)
    from k have k': "k < length starts" by (simp add: len)
    have "0 < length c \<and> length c \<le> n"
      unfolding c nth_len [OF k'] using below [OF k'] n by simp
    then show ?thesis by auto
  qed
  have cat: "concat chunks = lst"
    using concat_slices [OF n, of lst 0] by (simp add: chunks_def starts_def L_def)
  have total: "sum_list (map length chunks) = length lst"
    using arg_cong [OF cat, of length] by (simp add: length_concat)
  show ?thesis
    using ret ceil cnt full each total cat unfolding len [symmetric] L_def by blast
qed

text \<open>
  Claim C6. For a list of length \<open>L\<close> and a chunk size \<open>n > 0\<close>, \<open>divide\<close> returns (it
  raises nothing) \<open>ceil(L/n)\<close> chunks, written \<open>(L + n - 1) div n\<close> and also by the two
  inequalities that define the ceiling; every chunk but the last has length \<open>n\<close>, no chunk
  is empty or longer than \<open>n\<close>, the lengths add up to \<open>L\<close>, and the chunks concatenated
  in order are the list.
\<close>

theorem divide_chunks:
  assumes "0 < n"
  shows "\<exists>chunks. divide lst n = Inr chunks
     \<and> length chunks = (length lst + n - 1) div n
     \<and> length lst \<le> length chunks * n \<and> length chunks * n < length lst + n
     \<and> (\<forall>k. Suc k < length chunks \<longrightarrow> length (chunks ! k) = n)
     \<and> (\<forall>c \<in> set chunks. c \<noteq> [] \<and> length c \<le> n)
     \<and> sum_list (map length chunks) = length lst
     \<and> concat chunks = lst"
  using assms by (rule divide_shape)

theorem divide_chunks_witness:
  "(0::nat) < 2 \<and> divide [1, 2, 3, 4, 5 :: nat] 2 = Inr [[1, 2], [3, 4], [5]]
   \<and> length [[1, 2], [3, 4], [5 :: nat]] = (length [1, 2, 3, 4, 5 :: nat] + 2 - 1) div 2"
  using divide_chunks [of 2 "[1, 2, 3, 4, 5 :: nat]"]
  by (simp add: divide_def slice_def range_step.simps)

section \<open>The quantity rule\<close>

lemma str_split_nonempty: "str_split sep s \<noteq> []"
  by (induction s) (auto split: list.splits)

lemma not_digit_95: "\<not> ascii_digit 95"
  by (simp add: ascii_digit_def)

lemma ascii_body_Nil: "\<not> ascii_body []"
  by (simp add: ascii_body_def)

lemma tail_ok_Nil: "tail_ok []"
  by (simp add: tail_ok_def)

lemma tail_ok_digit: "ascii_digit c \<Longrightarrow> tail_ok (c # cs) \<longleftrightarrow> tail_ok cs"
  using not_digit_95 by (cases cs) (auto simp: tail_ok_def body_char_def)

lemma ascii_body_digit: "ascii_digit c \<Longrightarrow> ascii_body (c # cs) \<longleftrightarrow> tail_ok cs"
  by (simp add: ascii_body_def tail_ok_digit)

lemma ascii_body_underscore: "\<not> ascii_body (95 # cs)"
  by (simp add: ascii_body_def not_digit_95)

lemma tail_ok_underscore: "tail_ok (95 # cs) \<longleftrightarrow> ascii_body cs"
  using not_digit_95 by (cases cs) (auto simp: tail_ok_def ascii_body_def body_char_def)

lemma scan_digits_body:
  "list_all body_char b \<Longrightarrow>
   scan_digits True n acc b
     = (if ascii_body b
        then Some (foldl (\<lambda>a c. 10 * a + (c - 48)) acc (filter ascii_digit b),
                   n + length (filter ascii_digit b), [])
        else None)
   \<and> scan_digits False n acc b
     = (if tail_ok b
        then Some (foldl (\<lambda>a c. 10 * a + (c - 48)) acc (filter ascii_digit b),
                   n + length (filter ascii_digit b), [])
        else None)"
proof (induction b arbitrary: n acc)
  case Nil
  show ?case by (simp add: ascii_body_Nil tail_ok_Nil)
next
  case (Cons c cs)
  then have rest: "list_all body_char cs" by simp
  show ?case
  proof (cases "ascii_digit c")
    case True
    with Cons.IH [OF rest] show ?thesis
      by (simp add: ascii_body_digit tail_ok_digit)
  next
    case False
    with Cons.prems have c: "c = 95" by (simp add: body_char_def)
    with Cons.IH [OF rest] show ?thesis
      by (simp add: not_digit_95 ascii_body_underscore tail_ok_underscore)
  qed
qed

lemma scan_digits_rest:
  "list_all body_char b \<Longrightarrow> rest = [] \<or> \<not> body_char (hd rest) \<Longrightarrow>
   scan_digits pu n acc (b @ rest)
     = map_option (\<lambda>r. (fst r, fst (snd r), rest)) (scan_digits pu n acc b)"
proof (induction b arbitrary: pu n acc)
  case Nil
  then show ?case by (cases rest) (auto simp: body_char_def)
next
  case (Cons c cs)
  then show ?case by (auto simp: body_char_def)
qed

lemma space_not_body: "ascii_space c \<Longrightarrow> \<not> body_char c"
  by (auto simp: ascii_space_def body_char_def ascii_digit_def)

lemma parse_digits_eq:
  "parse_digits s
     = (if ascii_body (takeWhile body_char s)
        then Some (decimal_value (takeWhile body_char s),
                   length (filter ascii_digit (takeWhile body_char s)),
                   dropWhile body_char s)
        else None)"
proof (cases s)
  case Nil
  then show ?thesis by (simp add: parse_digits_def ascii_body_Nil)
next
  case (Cons c cs)
  define b where "b = takeWhile body_char s"
  define r where "r = dropWhile body_char s"
  have s: "s = b @ r" by (simp add: b_def r_def)
  have allb: "list_all body_char b"
    unfolding b_def list_all_iff using set_takeWhileD [of _ body_char s] by auto
  have r: "r = [] \<or> \<not> body_char (hd r)"
    using hd_dropWhile [of body_char s] by (auto simp: r_def)
  show ?thesis
  proof (cases "ascii_digit c")
    case True
    then have b: "b = c # takeWhile body_char cs"
      by (simp add: b_def Cons body_char_def)
    have "parse_digits s = scan_digits False 0 0 (b @ r)"
      using True Cons s by (simp add: parse_digits_def)
    also have "\<dots> = map_option (\<lambda>x. (fst x, fst (snd x), r)) (scan_digits False 0 0 b)"
      by (rule scan_digits_rest [OF allb r])
    also have "\<dots> = (if tail_ok b
                      then Some (decimal_value b, length (filter ascii_digit b), r) else None)"
      using scan_digits_body [OF allb, of 0 0] by (simp add: decimal_value_def)
    also have "tail_ok b \<longleftrightarrow> ascii_body b"
      unfolding b using True by (simp add: ascii_body_digit tail_ok_digit)
    finally show ?thesis by (simp add: b_def r_def)
  next
    case False
    have "\<not> ascii_body (takeWhile body_char s)"
    proof (cases "c = 95")
      case True
      then show ?thesis by (simp add: Cons body_char_def ascii_body_underscore)
    next
      case c: False
      with False show ?thesis by (simp add: Cons body_char_def ascii_body_Nil)
    qed
    with False Cons show ?thesis by (simp add: parse_digits_def)
  qed
qed

lemma ascii_body_chars: "ascii_body y \<Longrightarrow> list_all body_char y"
  by (simp add: ascii_body_def tail_ok_def list_all_iff)

lemma body_then_space:
  assumes y: "list_all body_char y" and r: "list_all ascii_space r"
  shows "takeWhile body_char (y @ r) = y" "dropWhile body_char (y @ r) = r"
    "strip_right (y @ r) = y"
proof -
  have r0: "takeWhile body_char r = []"
    using r by (cases r) (auto dest: space_not_body)
  have y0: "dropWhile ascii_space (rev y) = rev y"
    using y by (cases "rev y") (auto simp: list_all_iff dest: space_not_body
        intro: rev_image_eqI)
  show "takeWhile body_char (y @ r) = y"
    using y r0 by (simp add: list_all_iff)
  show "dropWhile body_char (y @ r) = r"
    using y r0 by (simp add: list_all_iff takeWhile_eq_Nil_iff dropWhile_eq_self_iff)
  have "dropWhile ascii_space (rev r @ rev y) = dropWhile ascii_space (rev y)"
    using r by (intro dropWhile_append2) (auto simp: list_all_iff)
  with y0 show "strip_right (y @ r) = y"
    by (simp add: strip_right_def)
qed

lemma strip_right_decompose:
  "s = strip_right s @ rev (takeWhile ascii_space (rev s))"
proof -
  have "rev (takeWhile ascii_space (rev s) @ dropWhile ascii_space (rev s)) = s"
    by (simp only: takeWhile_dropWhile_id rev_rev_ident)
  then have "rev (dropWhile ascii_space (rev s)) @ rev (takeWhile ascii_space (rev s)) = s"
    by (simp only: rev_append)
  then show ?thesis by (simp only: strip_right_def)
qed

lemma strip_right_numeric:
  "ascii_body (strip_right x)
     \<longleftrightarrow> ascii_body (takeWhile body_char x) \<and> dropWhile ascii_space (dropWhile body_char x) = []"
proof
  assume n: "ascii_body (strip_right x)"
  define r where "r = rev (takeWhile ascii_space (rev x))"
  have x: "x = strip_right x @ r" unfolding r_def by (rule strip_right_decompose)
  have r: "list_all ascii_space r"
    unfolding r_def list_all_iff using set_takeWhileD [of _ ascii_space "rev x"] by auto
  note bs = body_then_space [OF ascii_body_chars [OF n] r, folded x]
  from r have "dropWhile ascii_space r = []" by (simp add: list_all_iff)
  with n bs show "ascii_body (takeWhile body_char x)
      \<and> dropWhile ascii_space (dropWhile body_char x) = []" by simp
next
  assume a: "ascii_body (takeWhile body_char x)
      \<and> dropWhile ascii_space (dropWhile body_char x) = []"
  have y: "list_all body_char (takeWhile body_char x)"
    unfolding list_all_iff using set_takeWhileD [of _ body_char x] by auto
  from a have r: "list_all ascii_space (dropWhile body_char x)"
    by (simp add: list_all_iff dropWhile_eq_Nil_conv)
  from body_then_space(3) [OF y r] have "strip_right x = takeWhile body_char x" by simp
  with a show "ascii_body (strip_right x)" by simp
qed

lemma strip_right_body:
  "ascii_body (strip_right x) \<Longrightarrow> takeWhile body_char x = strip_right x"
proof -
  assume n: "ascii_body (strip_right x)"
  define r where "r = rev (takeWhile ascii_space (rev x))"
  have x: "x = strip_right x @ r" unfolding r_def by (rule strip_right_decompose)
  have r: "list_all ascii_space r"
    unfolding r_def list_all_iff using set_takeWhileD [of _ ascii_space "rev x"] by auto
  from body_then_space(1) [OF ascii_body_chars [OF n] r, folded x] show ?thesis .
qed

lemma strip_right_Cons: "\<not> ascii_space c \<Longrightarrow> strip_right (c # cs) = c # strip_right cs"
  by (simp add: strip_right_def dropWhile_append)

text \<open>The text after the sign, parsed, checked against the limit and for trailing text.\<close>

lemma parse_body_eq:
  "(case parse_digits body of
      None \<Rightarrow> Inl ValueError
    | Some (v, digits, rest) \<Rightarrow>
        if 640 < digits \<and> 0 < max_str_digits U \<and> max_str_digits U < digits
        then Inl ValueError
        else if dropWhile ascii_space rest = [] then Inr (f v) else Inl ValueError)
   = (if ascii_body (strip_right body)
         \<and> \<not> over_limit U (length (filter ascii_digit (strip_right body)))
      then Inr (f (decimal_value (strip_right body)))
      else Inl ValueError)"
proof (cases "ascii_body (strip_right body)")
  case True
  with strip_right_numeric [of body] strip_right_body [of body] show ?thesis
    by (simp add: parse_digits_eq over_limit_def)
next
  case False
  with strip_right_numeric [of body] show ?thesis
    by (auto simp: parse_digits_eq)
qed

lemma py_int_ascii:
  "py_int U s
     = (if ascii_body (gen_body ascii_space (to_ascii U s))
           \<and> \<not> over_limit U (length (filter ascii_digit (gen_body ascii_space (to_ascii U s))))
        then Inr (if gen_negative ascii_space (to_ascii U s)
                  then - int (decimal_value (gen_body ascii_space (to_ascii U s)))
                  else int (decimal_value (gen_body ascii_space (to_ascii U s))))
        else Inl ValueError)"
proof -
  define t where "t = dropWhile ascii_space (to_ascii U s)"
  have strip: "gen_strip ascii_space (to_ascii U s) = strip_right t"
    by (simp add: gen_strip_def strip_right_def t_def)
  show ?thesis
  proof (cases t)
    case Nil
    then have "strip_right t = []" by (simp add: strip_right_def)
    with Nil show ?thesis
      by (simp add: py_int_def t_def [symmetric] gen_body_def strip parse_digits_def
          ascii_body_Nil)
  next
    case (Cons c cs)
    have "\<not> ascii_space c"
      using Cons by (simp add: t_def dropWhile_eq_Cons_conv)
    then have sr: "strip_right t = c # strip_right cs"
      unfolding Cons by (rule strip_right_Cons)
    show ?thesis
    proof (cases "c = 43 \<or> c = 45")
      case True
      have "py_int U s
             = (case parse_digits cs of
                  None \<Rightarrow> Inl ValueError
                | Some (v, digits, rest) \<Rightarrow>
                    if 640 < digits \<and> 0 < max_str_digits U \<and> max_str_digits U < digits
                    then Inl ValueError
                    else if dropWhile ascii_space rest = []
                    then Inr (if c = 45 then - int v else int v) else Inl ValueError)"
        using True Cons by (simp add: py_int_def t_def [symmetric] split: option.splits)
      also have "\<dots> = (if ascii_body (strip_right cs)
                           \<and> \<not> over_limit U (length (filter ascii_digit (strip_right cs)))
                        then Inr (if c = 45 then - int (decimal_value (strip_right cs))
                                  else int (decimal_value (strip_right cs)))
                        else Inl ValueError)"
        by (rule parse_body_eq [where f = "\<lambda>v. if c = 45 then - int v else int v"])
      finally show ?thesis
        using True by (auto simp: gen_body_def gen_negative_def strip sr)
    next
      case False
      have "py_int U s
             = (case parse_digits t of
                  None \<Rightarrow> Inl ValueError
                | Some (v, digits, rest) \<Rightarrow>
                    if 640 < digits \<and> 0 < max_str_digits U \<and> max_str_digits U < digits
                    then Inl ValueError
                    else if dropWhile ascii_space rest = [] then Inr (int v)
                    else Inl ValueError)"
        using False Cons by (simp add: py_int_def t_def [symmetric] split: option.splits)
      also have "\<dots> = (if ascii_body (strip_right t)
                           \<and> \<not> over_limit U (length (filter ascii_digit (strip_right t)))
                        then Inr (int (decimal_value (strip_right t))) else Inl ValueError)"
        by (rule parse_body_eq [where f = int])
      finally show ?thesis
        using False by (simp add: gen_body_def gen_negative_def strip sr)
    qed
  qed
qed

lemma foldl_shift:
  "foldl (\<lambda>a c. 10 * a + (c - 48)) acc xs
     = foldl (\<lambda>a d. 10 * a + d) acc (map (\<lambda>c. c - 48) xs)"
  by (induction xs arbitrary: acc) simp_all

lemma foldl_positional:
  "foldl (\<lambda>a d. 10 * a + d) acc ds = acc * 10 ^ length ds + positional ds"
  by (induction ds arbitrary: acc) (simp_all add: algebra_simps)

lemma digit_corr:
  "interpreter_ok U \<Longrightarrow>
   int_digit U c = (if ascii_digit (ascii_of U c) then Some (ascii_of U c - 48) else None)"
proof -
  assume ok: "interpreter_ok U"
  then have d: "\<And>d. uni_decimal U c = Some d \<Longrightarrow> d < 10"
    unfolding interpreter_ok_def by (auto split: option.splits dest: spec [of _ c])
  show ?thesis
  proof (cases "uni_decimal U c")
    case None
    then show ?thesis
      by (auto simp: int_digit_def ascii_of_def ascii_digit_def)
  next
    case (Some d)
    with d [OF Some] show ?thesis
      by (auto simp: int_digit_def ascii_of_def ascii_digit_def)
  qed
qed

lemma space_corr: "ascii_space (ascii_of U c) \<longleftrightarrow> int_space U c"
  by (auto simp: ascii_space_def ascii_of_def int_space_def split: option.splits)

lemma sign_corr: "ascii_of U c = 43 \<longleftrightarrow> c = 43" "ascii_of U c = 45 \<longleftrightarrow> c = 45"
  by (auto simp: ascii_of_def split: option.splits)

lemma underscore_corr: "interpreter_ok U \<Longrightarrow> ascii_of U c = 95 \<longleftrightarrow> c = 95"
proof -
  assume ok: "interpreter_ok U"
  then have d: "\<And>d. uni_decimal U c = Some d \<Longrightarrow> d < 10"
    unfolding interpreter_ok_def by (auto split: option.splits dest: spec [of _ c])
  show ?thesis
    using d by (cases "uni_decimal U c") (auto simp: ascii_of_def)
qed

lemma to_ascii_good: "list_all (good_char U) s \<Longrightarrow> to_ascii U s = map (ascii_of U) s"
  by (induction s) (auto simp: good_char_def ascii_of_def split: option.splits)

lemma to_ascii_bad: "\<not> list_all (good_char U) s \<Longrightarrow> 63 \<in> set (to_ascii U s)"
  by (induction s) (auto simp: good_char_def split: option.splits)

lemma mem_dropWhile: "x \<in> set xs \<Longrightarrow> \<not> P x \<Longrightarrow> x \<in> set (dropWhile P xs)"
  by (induction xs) auto

lemma mem_gen_strip: "c \<in> set s \<Longrightarrow> \<not> sp c \<Longrightarrow> c \<in> set (gen_strip sp s)"
  by (simp add: gen_strip_def mem_dropWhile)

lemma mem_gen_body:
  "c \<in> set s \<Longrightarrow> \<not> sp c \<Longrightarrow> c \<noteq> 43 \<Longrightarrow> c \<noteq> 45 \<Longrightarrow> c \<in> set (gen_body sp s)"
  using mem_gen_strip [of c s sp]
  by (cases "gen_strip sp s") (auto simp: gen_body_def)

lemma dropWhile_map_corr:
  "(\<And>c. sp' (f c) = sp c) \<Longrightarrow> dropWhile sp' (map f s) = map f (dropWhile sp s)"
  by (induction s) simp_all

lemma gen_strip_map:
  "(\<And>c. sp' (f c) = sp c) \<Longrightarrow> gen_strip sp' (map f s) = map f (gen_strip sp s)"
proof -
  assume c: "\<And>c. sp' (f c) = sp c"
  have "dropWhile sp' (rev (map f (dropWhile sp s)))
          = dropWhile sp' (map f (rev (dropWhile sp s)))"
    by (simp only: rev_map)
  also have "\<dots> = map f (dropWhile sp (rev (dropWhile sp s)))"
    by (rule dropWhile_map_corr [of sp' f sp, OF c])
  finally show ?thesis
    by (simp only: gen_strip_def dropWhile_map_corr [of sp' f sp, OF c] rev_map)
qed

lemma gen_body_map:
  assumes "\<And>c. sp' (f c) = sp c" "\<And>c. f c = 43 \<longleftrightarrow> c = 43" "\<And>c. f c = 45 \<longleftrightarrow> c = 45"
  shows "gen_body sp' (map f s) = map f (gen_body sp s)"
  using assms(2,3)
  by (cases "gen_strip sp s") (simp_all add: gen_body_def gen_strip_map [of sp' f sp, OF assms(1)])

lemma gen_negative_map:
  assumes "\<And>c. sp' (f c) = sp c" "\<And>c. f c = 45 \<longleftrightarrow> c = 45"
  shows "gen_negative sp' (map f s) = gen_negative sp s"
  using assms(2)
  by (cases "gen_strip sp s")
    (simp_all add: gen_negative_def gen_strip_map [of sp' f sp, OF assms(1)])

lemma int_strip_gen: "int_strip U s = gen_strip (int_space U) s"
  by (simp add: int_strip_def gen_strip_def)

lemma int_body_gen: "int_body U s = gen_body (int_space U) s"
  by (simp add: int_body_def gen_body_def int_strip_gen)

lemma int_negative_gen: "int_negative U s = gen_negative (int_space U) s"
  by (simp add: int_negative_def gen_negative_def int_strip_gen)

lemma no_double_underscore_map:
  "(\<And>c. f c = 95 \<longleftrightarrow> c = 95) \<Longrightarrow> no_double_underscore (map f b) = no_double_underscore b"
  by (induction b rule: no_double_underscore.induct) simp_all

lemma ascii_body_map:
  assumes ok: "interpreter_ok U"
  shows "ascii_body (map (ascii_of U) b) \<longleftrightarrow> numeric_body U b"
proof (cases "b = []")
  case True
  then show ?thesis by (simp add: ascii_body_def numeric_body_def)
next
  case False
  have d: "\<And>c. ascii_digit (ascii_of U c) \<longleftrightarrow> int_digit U c \<noteq> None"
    by (simp add: digit_corr [OF ok])
  have u: "\<And>c. ascii_of U c = 95 \<longleftrightarrow> c = 95"
    by (rule underscore_corr [OF ok])
  from False show ?thesis
    by (simp add: ascii_body_def tail_ok_def numeric_body_def body_char_def hd_map last_map
        d u no_double_underscore_map [of "ascii_of U", OF u] conj_ac)
qed

lemma digits_map:
  assumes ok: "interpreter_ok U"
  shows "map (\<lambda>c. c - 48) (filter ascii_digit (map (ascii_of U) b))
           = List.map_filter (int_digit U) b"
  by (induction b) (simp_all add: List.map_filter_simps digit_corr [OF ok])

lemma decimal_value_map:
  assumes ok: "interpreter_ok U"
  shows "decimal_value (map (ascii_of U) b) = positional (List.map_filter (int_digit U) b)"
  by (simp add: decimal_value_def foldl_shift digits_map [OF ok] foldl_positional)

lemma digit_count_map:
  assumes ok: "interpreter_ok U"
  shows "length (filter ascii_digit (map (ascii_of U) b))
           = length (List.map_filter (int_digit U) b)"
  using arg_cong [OF digits_map [OF ok, of b], of length] by simp

lemma over_limit_corr:
  "interpreter_ok U \<Longrightarrow>
   \<not> over_limit U (length (numeric_digits U s)) \<longleftrightarrow> within_digit_limit U s"
  by (auto simp: over_limit_def within_digit_limit_def interpreter_ok_def)

lemma bad_char_not_numeric:
  assumes bad: "\<not> list_all (good_char U) s"
  shows "\<not> numeric_text U s"
proof -
  from bad obtain c where c: "c \<in> set s" "\<not> good_char U c"
    by (auto simp: list_all_iff)
  then have c128: "\<not> c < 128" and sp: "\<not> uni_space U c" and dec: "uni_decimal U c = None"
    by (auto simp: good_char_def)
  have "\<not> int_space U c" using c128 sp by (auto simp: int_space_def)
  moreover have "c \<noteq> 43" "c \<noteq> 45" "c \<noteq> 95" using c128 by auto
  ultimately have mem: "c \<in> set (int_body U s)"
    using c(1) by (simp add: int_body_gen mem_gen_body)
  have "int_digit U c = None" using c128 sp dec by (auto simp: int_digit_def)
  with mem \<open>c \<noteq> 95\<close> show ?thesis
    by (auto simp: numeric_text_def numeric_body_def)
qed

lemma bad_char_not_parsed:
  assumes bad: "\<not> list_all (good_char U) s"
  shows "\<not> ascii_body (gen_body ascii_space (to_ascii U s))"
proof -
  have "63 \<in> set (gen_body ascii_space (to_ascii U s))"
    using to_ascii_bad [OF bad] by (intro mem_gen_body) (simp_all add: ascii_space_def)
  moreover have "\<not> body_char 63"
    by (simp add: body_char_def ascii_digit_def)
  ultimately show ?thesis
    by (auto simp: ascii_body_def tail_ok_def)
qed

lemma py_int_eq:
  assumes ok: "interpreter_ok U"
  shows "py_int U s
           = (if numeric_text U s \<and> within_digit_limit U s then Inr (numeric_value U s)
              else Inl ValueError)"
proof (cases "list_all (good_char U) s")
  case False
  from bad_char_not_numeric [OF False] bad_char_not_parsed [OF False] show ?thesis
    by (simp add: py_int_ascii)
next
  case True
  have b: "gen_body ascii_space (to_ascii U s) = map (ascii_of U) (int_body U s)"
    unfolding to_ascii_good [OF True] int_body_gen
    by (rule gen_body_map) (simp_all add: space_corr sign_corr)
  have n: "gen_negative ascii_space (to_ascii U s) = int_negative U s"
    unfolding to_ascii_good [OF True] int_negative_gen
    by (rule gen_negative_map) (simp_all add: space_corr sign_corr)
  have k: "length (filter ascii_digit (map (ascii_of U) (int_body U s)))
             = length (numeric_digits U s)"
    unfolding numeric_digits_def by (rule digit_count_map [OF ok])
  show ?thesis
    unfolding py_int_ascii b n k ascii_body_map [OF ok] decimal_value_map [OF ok]
      over_limit_corr [OF ok]
    by (simp add: numeric_text_def numeric_value_def numeric_digits_def)
qed

lemma interpreter_ok_plain: "interpreter_ok plain_tables"
  by (simp add: interpreter_ok_def plain_tables_def)

lemma no_double_underscore_replicate: "x \<noteq> 95 \<Longrightarrow> no_double_underscore (replicate n x)"
proof (induction n)
  case 0
  show ?case by simp
next
  case (Suc n)
  then show ?case by (cases n) simp_all
qed

lemma map_filter_replicate:
  "f x = Some y \<Longrightarrow> List.map_filter f (replicate n x) = replicate n y"
  by (induction n) (simp_all add: List.map_filter_simps)

lemma nines_numeric:
  assumes n: "0 < n"
  shows "int_body plain_tables (replicate n 57) = replicate n 57"
    and "numeric_text plain_tables (replicate n 57)"
    and "numeric_digits plain_tables (replicate n 57) = replicate n 9"
proof -
  have sp: "\<not> int_space plain_tables 57"
    by (simp add: int_space_def)
  have d: "int_digit plain_tables 57 = Some 9"
    by (simp add: int_digit_def)
  from n obtain m where m: "n = Suc m" by (cases n) auto
  have strip: "int_strip plain_tables (replicate n 57) = replicate n 57"
    using sp by (simp add: int_strip_def dropWhile_replicate)
  show b: "int_body plain_tables (replicate n 57) = replicate n 57"
    unfolding int_body_def strip by (simp add: m)
  show "numeric_text plain_tables (replicate n 57)"
    unfolding numeric_text_def b numeric_body_def
    using n d by (simp add: no_double_underscore_replicate)
  show "numeric_digits plain_tables (replicate n 57) = replicate n 9"
    unfolding numeric_digits_def b
    by (rule map_filter_replicate [of "int_digit plain_tables" 57 9, OF d])
qed

lemma nines_not_sentinel: "2 < n \<Longrightarrow> replicate n 57 \<noteq> lit ''>10'' \<and> replicate n 57 \<noteq> lit ''1''"
proof -
  assume "2 < n"
  then obtain m where "n = Suc m" by (cases n) auto
  then show ?thesis by (simp add: lit_def)
qed

lemma nines_refused:
  assumes n: "4300 < n"
  shows "stock_of_count plain_tables (replicate n 57) = Inl ValueError"
proof -
  from n have pos: "0 < n" and big: "2 < n" by simp_all
  have m: "max_str_digits plain_tables = 4300"
    by (simp add: plain_tables_def)
  have "\<not> within_digit_limit plain_tables (replicate n 57)"
    unfolding within_digit_limit_def nines_numeric(3) [OF pos] m using n by simp
  then have "py_int plain_tables (replicate n 57) = Inl ValueError"
    by (simp add: py_int_eq [OF interpreter_ok_plain])
  with nines_not_sentinel [OF big] show ?thesis
    by (simp add: stock_of_count_def)
qed

text \<open>
  Claim C4, as stated, fails at a numeric text with more digits than the interpreter
  converts: the text of 4301 digits 9 is numeric and is none of the two special texts,
  and under the default limit of 4300 digits \<open>int\<close> raises ValueError for it, so the
  quantity rule produces no quantity.
\<close>

theorem quantity_digit_limit_counterexample:
  "numeric_text plain_tables (replicate 4301 57)
   \<and> replicate 4301 57 \<noteq> lit ''>10'' \<and> replicate 4301 57 \<noteq> lit ''1''
   \<and> length (numeric_digits plain_tables (replicate 4301 57)) = 4301
   \<and> max_str_digits plain_tables = 4300
   \<and> stock_of_count plain_tables (replicate 4301 57) = Inl ValueError"
proof -
  have a: "numeric_text plain_tables (replicate 4301 57)"
    by (rule nines_numeric(2)) simp
  have b: "replicate 4301 57 \<noteq> lit ''>10'' \<and> replicate 4301 57 \<noteq> lit ''1''"
    by (rule nines_not_sentinel) simp
  have "numeric_digits plain_tables (replicate 4301 57) = replicate 4301 9"
    by (rule nines_numeric(3)) simp
  then have c: "length (numeric_digits plain_tables (replicate 4301 57)) = 4301"
    by (simp only: length_replicate)
  have d: "max_str_digits plain_tables = 4300"
    by (simp add: plain_tables_def)
  have e: "stock_of_count plain_tables (replicate 4301 57) = Inl ValueError"
    by (rule nines_refused) simp
  from a b c d e show ?thesis by (simp only: simp_thms)
qed

text \<open>
  Claim C4, amended. The quantity rule maps the text \<open>>10\<close> to 100 and the text \<open>1\<close> to 0;
  the text \<open>42\<close> goes to 42; and, on an interpreter whose decimal digits have values
  below ten and whose digit limit is 0 or at least 640, every other text goes to what
  \<open>int\<close> makes of it: if it is a numeric text (decimal digits with single underscores
  between digits allowed, an optional sign before them, white space around) with no more
  digits than the interpreter's limit (4300 by default; no limit when it is 0), the number
  its digits denote in base 10, with its sign; and otherwise the exception ValueError,
  never a quantity.
\<close>

theorem quantity_rule:
  "stock_of_count U (lit ''>10'') = Inr 100
   \<and> stock_of_count U (lit ''1'') = Inr 0
   \<and> stock_of_count U (lit ''42'') = Inr 42
   \<and> (interpreter_ok U \<and> quantity \<noteq> lit ''>10'' \<and> quantity \<noteq> lit ''1'' \<longrightarrow>
        stock_of_count U quantity
          = (if numeric_text U quantity \<and> within_digit_limit U quantity
             then Inr (numeric_value U quantity)
             else Inl ValueError))"
proof -
  have a: "stock_of_count U (lit ''>10'') = Inr 100"
    by (simp add: stock_of_count_def)
  have b: "stock_of_count U (lit ''1'') = Inr 0"
    by (simp add: stock_of_count_def lit_def)
  have c: "stock_of_count U (lit ''42'') = Inr 42"
    by (simp add: stock_of_count_def py_int_def parse_digits_def ascii_digit_def
        ascii_space_def lit_def)
  have d: "stock_of_count U quantity
          = (if numeric_text U quantity \<and> within_digit_limit U quantity
             then Inr (numeric_value U quantity)
             else Inl ValueError)"
    if "interpreter_ok U \<and> quantity \<noteq> lit ''>10'' \<and> quantity \<noteq> lit ''1''"
    using that by (simp add: stock_of_count_def py_int_eq)
  from a b c d show ?thesis by blast
qed

theorem quantity_rule_witness:
  "interpreter_ok plain_tables
   \<and> lit '' 7_000'' \<noteq> lit ''>10'' \<and> lit '' 7_000'' \<noteq> lit ''1''
   \<and> numeric_text plain_tables (lit '' 7_000'')
   \<and> within_digit_limit plain_tables (lit '' 7_000'')
   \<and> stock_of_count plain_tables (lit '' 7_000'') = Inr 7000
   \<and> lit ''-12 '' \<noteq> lit ''>10'' \<and> lit ''-12 '' \<noteq> lit ''1''
   \<and> stock_of_count plain_tables (lit ''-12 '') = Inr (- 12)
   \<and> lit ''many'' \<noteq> lit ''>10'' \<and> lit ''many'' \<noteq> lit ''1''
   \<and> \<not> numeric_text plain_tables (lit ''many'')
   \<and> stock_of_count plain_tables (lit ''many'') = Inl ValueError"
  using quantity_rule [of plain_tables "lit '' 7_000''"]
    quantity_rule [of plain_tables "lit ''-12 ''"]
    quantity_rule [of plain_tables "lit ''many''"]
  by (simp add: lit_def interpreter_ok_def numeric_text_def numeric_value_def
      numeric_body_def numeric_digits_def int_body_def int_strip_def int_negative_def
      int_space_def int_digit_def within_digit_limit_def List.map_filter_simps
      plain_tables_def)

section \<open>The reconciler\<close>

lemma seller_stocks_loop_reconcile:
  "seller_stocks_loop U ws ids acc = reconcile_loop ozon_stock_entry U ws ids acc"
  by (induction ws arbitrary: ids acc) (simp_all add: ozon_stock_entry_def split: sum.splits)

lemma market_stocks_loop_reconcile:
  "market_stocks_loop U wh date ws ids acc
     = reconcile_loop (market_stock_entry wh date) U ws ids acc"
  by (induction ws arbitrary: ids acc) (simp_all add: market_stock_entry_def split: sum.splits)

text \<open>A record whose code is not among the offer ids does not take part in the loop.\<close>

lemma reconcile_loop_skips_unmatched:
  "set ids \<subseteq> S \<Longrightarrow>
   reconcile_loop entry U ws ids acc
     = reconcile_loop entry U (filter (\<lambda>w. watch_code w \<in> S) ws) ids acc"
proof (induction ws arbitrary: ids acc)
  case Nil
  show ?case by simp
next
  case (Cons w ws)
  have sub: "set (remove1 (watch_code w) ids) \<subseteq> S"
    using Cons.prems set_remove1_subset by fastforce
  show ?case
  proof (cases "watch_code w \<in> set ids")
    case True
    with Cons.prems have "watch_code w \<in> S" by auto
    with True Cons.IH [OF sub] show ?thesis
      by (simp split: sum.splits)
  next
    case False
    with Cons.IH [OF Cons.prems] show ?thesis by simp
  qed
qed

text \<open>
  What holds of the loop for every feed and every list of offer ids: the entries it adds and
  the ids it leaves are together the offer ids it started from, counted with
  multiplicity, and each added entry comes from a record of the feed.
\<close>

lemma reconcile_loop_invariant:
  assumes "reconcile_loop entry U ws ids acc = (ids', Inr stocks)"
    and idof: "\<And>c n. idof (entry c n) = c"
  shows "\<exists>new. stocks = acc @ new
           \<and> mset (map idof new) + mset ids' = mset ids
           \<and> (\<forall>s \<in> set new. \<exists>w \<in> set ws. \<exists>n.
                 stock_of_count U (watch_quantity w) = Inr n \<and> s = entry (watch_code w) n)"
  using assms(1)
proof (induction ws arbitrary: ids acc)
  case Nil
  then show ?case by simp
next
  case (Cons w ws)
  show ?case
  proof (cases "watch_code w \<in> set ids")
    case False
    with Cons.prems have "reconcile_loop entry U ws ids acc = (ids', Inr stocks)" by simp
    from Cons.IH [OF this] show ?thesis by auto
  next
    case True
    with Cons.prems obtain n where n: "stock_of_count U (watch_quantity w) = Inr n"
      and rec: "reconcile_loop entry U ws (remove1 (watch_code w) ids)
                  (acc @ [entry (watch_code w) n]) = (ids', Inr stocks)"
      by (auto split: sum.splits)
    from Cons.IH [OF rec] obtain new where new: "stocks = (acc @ [entry (watch_code w) n]) @ new"
      and ms: "mset (map idof new) + mset ids' = mset (remove1 (watch_code w) ids)"
      and src: "\<forall>s \<in> set new. \<exists>w \<in> set ws. \<exists>n.
                 stock_of_count U (watch_quantity w) = Inr n \<and> s = entry (watch_code w) n"
      by blast
    have ms': "mset (map idof (entry (watch_code w) n # new)) + mset ids' = mset ids"
      using ms True by (simp add: idof)
    have src': "\<forall>s \<in> set (entry (watch_code w) n # new). \<exists>w' \<in> set (w # ws). \<exists>n.
                 stock_of_count U (watch_quantity w') = Inr n \<and> s = entry (watch_code w') n"
      using src n by auto
    from new ms' src' show ?thesis
      by (intro exI [of _ "entry (watch_code w) n # new"]) simp
  qed
qed

text \<open>With duplicate-free offer ids, the ids left over are the ones no record matches.\<close>

lemma reconcile_loop_remaining:
  assumes "distinct ids"
    and "reconcile_loop entry U ws ids acc = (ids', Inr stocks)"
  shows "ids' = filter (\<lambda>i. i \<notin> watch_code ` set ws) ids"
  using assms
proof (induction ws arbitrary: ids acc)
  case Nil
  then show ?case by simp
next
  case (Cons w ws)
  show ?case
  proof (cases "watch_code w \<in> set ids")
    case False
    with Cons.prems have "reconcile_loop entry U ws ids acc = (ids', Inr stocks)" by simp
    from Cons.IH [OF Cons.prems(1) this]
    have "ids' = filter (\<lambda>i. i \<notin> watch_code ` set ws) ids" .
    also have "\<dots> = filter (\<lambda>i. i \<notin> watch_code ` set (w # ws)) ids"
      using False by (intro filter_cong) auto
    finally show ?thesis .
  next
    case True
    with Cons.prems obtain n where
      rec: "reconcile_loop entry U ws (remove1 (watch_code w) ids)
                  (acc @ [entry (watch_code w) n]) = (ids', Inr stocks)"
      by (auto split: sum.splits)
    have d: "distinct (remove1 (watch_code w) ids)"
      using Cons.prems(1) by simp
    have r: "remove1 (watch_code w) ids = filter (\<lambda>i. i \<noteq> watch_code w) ids"
      using Cons.prems(1) by (simp add: distinct_remove1_removeAll removeAll_filter_not_eq eq_commute)
    from Cons.IH [OF d rec]
    have "ids' = filter (\<lambda>i. i \<notin> watch_code ` set ws) (remove1 (watch_code w) ids)" .
    also have "\<dots> = filter (\<lambda>i. i \<notin> watch_code ` set (w # ws)) ids"
      unfolding r by (simp add: conj_commute)
    finally show ?thesis .
  qed
qed



lemma seller_create_stocks_Inr:
  "seller_create_stocks U ws ids = (ids', Inr stocks) \<longleftrightarrow>
     (\<exists>new. reconcile_loop ozon_stock_entry U ws ids [] = (ids', Inr new)
        \<and> stocks = new @ map (\<lambda>i. ozon_stock_entry i 0) ids')"
  by (auto simp: seller_create_stocks_def seller_stocks_loop_reconcile ozon_stock_entry_def
      split: prod.splits sum.splits)

lemma market_create_stocks_Inr:
  "market_create_stocks U date ws ids wh = (ids', Inr stocks) \<longleftrightarrow>
     (\<exists>new. reconcile_loop (market_stock_entry wh date) U ws ids [] = (ids', Inr new)
        \<and> stocks = new @ map (\<lambda>i. market_stock_entry wh date i 0) ids')"
  by (auto simp: market_create_stocks_def market_stocks_loop_reconcile market_stock_entry_def
      split: prod.splits sum.splits)

text \<open>The payload of either \<open>create_stocks\<close>: the loop's entries, then a zero entry for
  each id left; the ids of the payload are the offer ids, each as often as it was given.\<close>

lemma payload_ids:
  assumes loop: "reconcile_loop entry U ws ids [] = (ids', Inr new)"
    and idof: "\<And>c n. idof (entry c n) = c"
  shows "mset (map idof (new @ map (\<lambda>i. entry i 0) ids')) = mset ids"
proof -
  from reconcile_loop_invariant [OF loop idof]
  have "mset (map idof new) + mset ids' = mset ids" by simp
  moreover have "map idof (map (\<lambda>i. entry i 0) ids') = ids'"
    by (simp add: idof comp_def)
  ultimately show ?thesis by simp
qed




section \<open>The price payloads\<close>

lemma seller_create_prices_eq:
  "seller_create_prices ws ids
     = Inr (map ozon_price_entry (filter (\<lambda>w. watch_code w \<in> set ids) ws))"
  by (induction ws)
    (simp_all add: price_conversion_total spec_price_normalizer_def ozon_price_entry_def)

lemma market_create_prices_Inr:
  "market_create_prices U ws ids = Inr prices \<Longrightarrow>
   list_all2 (\<lambda>w p. p = \<lparr>price_id = watch_code w, price_value = price_value p,
                          price_currencyId = lit ''RUR''\<rparr>
                \<and> py_int U (spec_price_normalizer (watch_price w)) = Inr (price_value p))
     (filter (\<lambda>w. watch_code w \<in> set ids) ws) prices"
proof (induction ws arbitrary: prices)
  case Nil
  then show ?case by simp
next
  case (Cons w ws)
  show ?case
  proof (cases "watch_code w \<in> set ids")
    case False
    with Cons show ?thesis by simp
  next
    case True
    with Cons.prems obtain v rest where
      v: "py_int U (spec_price_normalizer (watch_price w)) = Inr v"
      and rest: "market_create_prices U ws ids = Inr rest"
      and prices: "prices = \<lparr>price_id = watch_code w, price_value = v,
                             price_currencyId = lit ''RUR''\<rparr> # rest"
      by (auto simp: price_conversion_total spec_price_normalizer_def split: sum.splits)
    from Cons.IH [OF rest] True v show ?thesis
      unfolding prices by simp
  qed
qed

lemma market_create_prices_returns:
  "(\<forall>w \<in> set ws. watch_code w \<in> set ids
       \<longrightarrow> (\<exists>v. py_int U (spec_price_normalizer (watch_price w)) = Inr v))
   \<Longrightarrow> \<exists>prices. market_create_prices U ws ids = Inr prices"
  by (induction ws)
    (auto simp: price_conversion_total spec_price_normalizer_def split: sum.splits)

lemma market_create_prices_raises:
  "market_create_prices U ws ids = Inl e \<Longrightarrow>
   \<exists>w \<in> set ws. watch_code w \<in> set ids
      \<and> py_int U (spec_price_normalizer (watch_price w)) = Inl e"
  by (induction ws)
    (auto simp: price_conversion_total spec_price_normalizer_def split: sum.splits if_splits)

lemma market_create_prices_filter:
  "market_create_prices U (filter (\<lambda>w. watch_code w \<in> set ids) ws) ids
     = market_create_prices U ws ids"
  by (induction ws) (simp_all split: sum.splits)

lemma seller_create_stocks_filter:
  "seller_create_stocks U (filter (\<lambda>w. watch_code w \<in> set ids) ws) ids
     = seller_create_stocks U ws ids"
  unfolding seller_create_stocks_def seller_stocks_loop_reconcile
  using reconcile_loop_skips_unmatched [of ids "set ids" ozon_stock_entry U ws "[]"]
  by simp

lemma market_create_stocks_filter:
  "market_create_stocks U date (filter (\<lambda>w. watch_code w \<in> set ids) ws) ids wh
     = market_create_stocks U date ws ids wh"
  unfolding market_create_stocks_def market_stocks_loop_reconcile
  using reconcile_loop_skips_unmatched [of ids "set ids" "market_stock_entry wh date" U ws "[]"]
  by simp

lemma seller_payload_ids:
  assumes "seller_create_stocks U ws ids = (ids', Inr stocks)"
  shows "mset (map stock_offer_id stocks) = mset ids"
proof -
  from assms obtain new where
    loop: "reconcile_loop ozon_stock_entry U ws ids [] = (ids', Inr new)"
    and stocks: "stocks = new @ map (\<lambda>i. ozon_stock_entry i 0) ids'"
    unfolding seller_create_stocks_Inr by blast
  have idof: "\<And>c n. stock_offer_id (ozon_stock_entry c n) = c"
    by (simp add: ozon_stock_entry_def)
  show ?thesis unfolding stocks by (rule payload_ids [OF loop idof])
qed

lemma market_payload_ids:
  assumes "market_create_stocks U date ws ids wh = (ids', Inr skus)"
  shows "mset (map sku skus) = mset ids"
proof -
  from assms obtain new where
    loop: "reconcile_loop (market_stock_entry wh date) U ws ids [] = (ids', Inr new)"
    and skus: "skus = new @ map (\<lambda>i. market_stock_entry wh date i 0) ids'"
    unfolding market_create_stocks_Inr by blast
  have idof: "\<And>c n. sku (market_stock_entry wh date c n) = c"
    by (simp add: market_stock_entry_def)
  show ?thesis unfolding skus by (rule payload_ids [OF loop idof])
qed

text \<open>
  Claim C10. For every feed and every list of offer ids, \<open>create_prices\<close> of seller.py
  returns one entry for each record whose code is among the offer ids, in the order of the
  feed, and nothing else (so no entry for an offer id that no record has); \<open>create_prices\<close>
  of market.py, when it returns, returns one entry for each such record, with its parsed
  price, and it returns exactly when the normalized price of every matched record parses.
  A record whose code is not among the offer ids is dropped without a trace: removing these
  records from the feed changes no result of the four functions (neither payload nor
  exception), and the ids of a stock payload are the offer ids, so none of them is the code
  of such a record.
\<close>

theorem create_prices_matched_only:
  "seller_create_prices watch_remnants offer_ids
     = Inr (map ozon_price_entry (filter (\<lambda>w. watch_code w \<in> set offer_ids) watch_remnants))
   \<and> (market_create_prices U watch_remnants offer_ids = Inr prices \<longrightarrow>
        list_all2 (\<lambda>w p. p = \<lparr>price_id = watch_code w, price_value = price_value p,
                               price_currencyId = lit ''RUR''\<rparr>
                     \<and> py_int U (spec_price_normalizer (watch_price w)) = Inr (price_value p))
          (filter (\<lambda>w. watch_code w \<in> set offer_ids) watch_remnants) prices)
   \<and> ((\<exists>ps. market_create_prices U watch_remnants offer_ids = Inr ps) \<longleftrightarrow>
        (\<forall>w \<in> set watch_remnants. watch_code w \<in> set offer_ids \<longrightarrow>
           (\<exists>v. py_int U (spec_price_normalizer (watch_price w)) = Inr v)))
   \<and> seller_create_prices (filter (\<lambda>w. watch_code w \<in> set offer_ids) watch_remnants) offer_ids
        = seller_create_prices watch_remnants offer_ids
   \<and> market_create_prices U (filter (\<lambda>w. watch_code w \<in> set offer_ids) watch_remnants) offer_ids
        = market_create_prices U watch_remnants offer_ids
   \<and> seller_create_stocks U (filter (\<lambda>w. watch_code w \<in> set offer_ids) watch_remnants) offer_ids
        = seller_create_stocks U watch_remnants offer_ids
   \<and> market_create_stocks U date (filter (\<lambda>w. watch_code w \<in> set offer_ids) watch_remnants)
          offer_ids warehouse_id
        = market_create_stocks U date watch_remnants offer_ids warehouse_id
   \<and> (seller_create_stocks U watch_remnants offer_ids = (ids1, Inr stocks) \<longrightarrow>
        set (map stock_offer_id stocks) = set offer_ids)
   \<and> (market_create_stocks U date watch_remnants offer_ids warehouse_id = (ids2, Inr skus) \<longrightarrow>
        set (map sku skus) = set offer_ids)"
proof -
  have iff: "(\<exists>ps. market_create_prices U watch_remnants offer_ids = Inr ps) \<longleftrightarrow>
        (\<forall>w \<in> set watch_remnants. watch_code w \<in> set offer_ids \<longrightarrow>
           (\<exists>v. py_int U (spec_price_normalizer (watch_price w)) = Inr v))"
  proof
    assume "\<exists>ps. market_create_prices U watch_remnants offer_ids = Inr ps"
    then obtain ps where ps: "market_create_prices U watch_remnants offer_ids = Inr ps" ..
    show "\<forall>w \<in> set watch_remnants. watch_code w \<in> set offer_ids \<longrightarrow>
           (\<exists>v. py_int U (spec_price_normalizer (watch_price w)) = Inr v)"
    proof (intro ballI impI, rule ccontr)
      fix w assume w: "w \<in> set watch_remnants" "watch_code w \<in> set offer_ids"
        and no: "\<nexists>v. py_int U (spec_price_normalizer (watch_price w)) = Inr v"
      let ?ms = "filter (\<lambda>w. watch_code w \<in> set offer_ids) watch_remnants"
      from w have "w \<in> set ?ms" by simp
      then obtain k where k: "k < length ?ms" and wk: "?ms ! k = w"
        unfolding in_set_conv_nth by blast
      from list_all2_nthD [OF market_create_prices_Inr [OF ps] k] wk no
      show False by auto
    qed
  next
    assume "\<forall>w \<in> set watch_remnants. watch_code w \<in> set offer_ids \<longrightarrow>
           (\<exists>v. py_int U (spec_price_normalizer (watch_price w)) = Inr v)"
    then show "\<exists>ps. market_create_prices U watch_remnants offer_ids = Inr ps"
      by (rule market_create_prices_returns)
  qed
  have s1: "seller_create_stocks U watch_remnants offer_ids = (ids1, Inr stocks) \<longrightarrow>
        set (map stock_offer_id stocks) = set offer_ids"
    using mset_eq_setD [OF seller_payload_ids] by blast
  have s2: "market_create_stocks U date watch_remnants offer_ids warehouse_id = (ids2, Inr skus)
        \<longrightarrow> set (map sku skus) = set offer_ids"
    using mset_eq_setD [OF market_payload_ids] by blast
  show ?thesis
    using iff s1 s2 market_create_prices_Inr [of U watch_remnants offer_ids prices]
    by (simp add: seller_create_prices_eq market_create_prices_filter
        seller_create_stocks_filter market_create_stocks_filter)
qed

theorem create_prices_matched_only_witness:
  "seller_create_prices scenario_feed_extra scenario_offer_ids
     = Inr [\<lparr>auto_action_enabled = lit ''UNKNOWN'', currency_code = lit ''RUB'',
             price_offer_id = lit ''001'', old_price = lit ''0'', price = lit ''5990''\<rparr>]
   \<and> market_create_prices plain_tables scenario_feed_extra scenario_offer_ids
     = Inr [\<lparr>price_id = lit ''001'', price_value = 5990, price_currencyId = lit ''RUR''\<rparr>]
   \<and> seller_create_stocks plain_tables scenario_feed_extra scenario_offer_ids
       = ([lit ''002''],
          Inr [\<lparr>stock_offer_id = lit ''001'', stock = 10\<rparr>,
               \<lparr>stock_offer_id = lit ''002'', stock = 0\<rparr>])
   \<and> market_create_stocks plain_tables (lit ''2020-10-10T10:00:00Z'') scenario_feed_extra
         scenario_offer_ids (lit ''wh1'')
       = ([lit ''002''],
          Inr [\<lparr>sku = lit ''001'', warehouseId = lit ''wh1'',
                 items = [\<lparr>item_count = 10, item_type = lit ''FIT'',
                           item_updatedAt = lit ''2020-10-10T10:00:00Z''\<rparr>]\<rparr>,
               \<lparr>sku = lit ''002'', warehouseId = lit ''wh1'',
                 items = [\<lparr>item_count = 0, item_type = lit ''FIT'',
                           item_updatedAt = lit ''2020-10-10T10:00:00Z''\<rparr>]\<rparr>])"
  using create_prices_matched_only [of scenario_feed_extra scenario_offer_ids plain_tables
      "[\<lparr>price_id = lit ''001'', price_value = 5990, price_currencyId = lit ''RUR''\<rparr>]"
      "lit ''2020-10-10T10:00:00Z''" "lit ''wh1''" "[lit ''002'']"
      "[\<lparr>stock_offer_id = lit ''001'', stock = 10\<rparr>, \<lparr>stock_offer_id = lit ''002'', stock = 0\<rparr>]"
      "[lit ''002'']"
      "[\<lparr>sku = lit ''001'', warehouseId = lit ''wh1'',
                 items = [\<lparr>item_count = 10, item_type = lit ''FIT'',
                           item_updatedAt = lit ''2020-10-10T10:00:00Z''\<rparr>]\<rparr>,
        \<lparr>sku = lit ''002'', warehouseId = lit ''wh1'',
                 items = [\<lparr>item_count = 0, item_type = lit ''FIT'',
                           item_updatedAt = lit ''2020-10-10T10:00:00Z''\<rparr>]\<rparr>]"]
  by (simp add: scenario_offer_ids_def scenario_feed_extra_def scenario_feed_def
      seller_create_stocks_def market_create_stocks_def stock_of_count_def py_int_def
      parse_digits_def ascii_digit_def ascii_space_def lit_def plain_tables_def
      price_conversion_def re_sub_non_digit_def)

section \<open>The effect of \<open>create_stocks\<close> on the caller's list\<close>

text \<open>
  Claim C9, as stated for every list of offer ids, fails when an id is listed twice:
  \<open>offer_ids.remove\<close> deletes one occurrence for each matching record, so with the ids
  \<open>001, 001\<close> and one record of code \<open>001\<close> the caller's list is \<open>001\<close> after the call: a
  matched id is still in it, whereas the original list without the matched ids is empty.
\<close>

theorem create_stocks_mutation_counterexample:
  "seller_create_stocks plain_tables twice_feed twice_offer_ids
     = ([lit ''001''],
        Inr [\<lparr>stock_offer_id = lit ''001'', stock = 5\<rparr>,
             \<lparr>stock_offer_id = lit ''001'', stock = 0\<rparr>])
   \<and> lit ''001'' \<in> watch_code ` set twice_feed
   \<and> filter (\<lambda>i. i \<notin> watch_code ` set twice_feed) twice_offer_ids = []"
  by (simp add: twice_offer_ids_def twice_feed_def seller_create_stocks_def
      stock_of_count_def py_int_def parse_digits_def ascii_digit_def ascii_space_def
      lit_def plain_tables_def)

text \<open>
  Claim C9, amended. For a list of offer ids without duplicates and every feed: when
  \<open>create_stocks\<close> (of seller.py or of market.py) returns, the caller's list is the
  original list without the ids that are the code of a feed record; the other ids remain,
  in their original order. The function has no other effect: its model yields the list
  and the payload only.
\<close>

theorem create_stocks_mutation:
  assumes "distinct offer_ids"
  shows
    "(seller_create_stocks U watch_remnants offer_ids = (ids1, Inr stocks) \<longrightarrow>
        ids1 = filter (\<lambda>i. i \<notin> watch_code ` set watch_remnants) offer_ids)
     \<and> (market_create_stocks U date watch_remnants offer_ids warehouse_id = (ids2, Inr skus) \<longrightarrow>
        ids2 = filter (\<lambda>i. i \<notin> watch_code ` set watch_remnants) offer_ids)"
proof (intro conjI impI)
  assume "seller_create_stocks U watch_remnants offer_ids = (ids1, Inr stocks)"
  then obtain new where
    "reconcile_loop ozon_stock_entry U watch_remnants offer_ids [] = (ids1, Inr new)"
    unfolding seller_create_stocks_Inr by blast
  from reconcile_loop_remaining [OF assms this]
  show "ids1 = filter (\<lambda>i. i \<notin> watch_code ` set watch_remnants) offer_ids" .
next
  assume "market_create_stocks U date watch_remnants offer_ids warehouse_id = (ids2, Inr skus)"
  then obtain new where
    "reconcile_loop (market_stock_entry warehouse_id date) U watch_remnants offer_ids []
       = (ids2, Inr new)"
    unfolding market_create_stocks_Inr by blast
  from reconcile_loop_remaining [OF assms this]
  show "ids2 = filter (\<lambda>i. i \<notin> watch_code ` set watch_remnants) offer_ids" .
qed

theorem create_stocks_mutation_witness:
  "distinct scenario_offer_ids
   \<and> seller_create_stocks plain_tables scenario_feed scenario_offer_ids
       = ([lit ''002''],
          Inr [\<lparr>stock_offer_id = lit ''001'', stock = 10\<rparr>,
               \<lparr>stock_offer_id = lit ''002'', stock = 0\<rparr>])
   \<and> market_create_stocks plain_tables (lit ''2020-10-10T10:00:00Z'') scenario_feed
         scenario_offer_ids (lit ''wh1'')
       = ([lit ''002''],
          Inr [\<lparr>sku = lit ''001'', warehouseId = lit ''wh1'',
                 items = [\<lparr>item_count = 10, item_type = lit ''FIT'',
                           item_updatedAt = lit ''2020-10-10T10:00:00Z''\<rparr>]\<rparr>,
               \<lparr>sku = lit ''002'', warehouseId = lit ''wh1'',
                 items = [\<lparr>item_count = 0, item_type = lit ''FIT'',
                           item_updatedAt = lit ''2020-10-10T10:00:00Z''\<rparr>]\<rparr>])
   \<and> filter (\<lambda>i. i \<notin> watch_code ` set scenario_feed) scenario_offer_ids = [lit ''002'']"
  using create_stocks_mutation [of scenario_offer_ids plain_tables scenario_feed
      "[lit ''002'']"
      "[\<lparr>stock_offer_id = lit ''001'', stock = 10\<rparr>, \<lparr>stock_offer_id = lit ''002'', stock = 0\<rparr>]"
      "lit ''2020-10-10T10:00:00Z''" "lit ''wh1''" "[lit ''002'']"
      "[\<lparr>sku = lit ''001'', warehouseId = lit ''wh1'',
                 items = [\<lparr>item_count = 10, item_type = lit ''FIT'',
                           item_updatedAt = lit ''2020-10-10T10:00:00Z''\<rparr>]\<rparr>,
        \<lparr>sku = lit ''002'', warehouseId = lit ''wh1'',
                 items = [\<lparr>item_count = 0, item_type = lit ''FIT'',
                           item_updatedAt = lit ''2020-10-10T10:00:00Z''\<rparr>]\<rparr>]"]
  by (simp add: scenario_offer_ids_def scenario_feed_def seller_create_stocks_def
      market_create_stocks_def stock_of_count_def py_int_def parse_digits_def
      ascii_digit_def ascii_space_def lit_def plain_tables_def)

section \<open>Traces of the drivers\<close>

lemma batches_Nil [simp]: "price_batches [] = []" "stock_batches [] = []"
  by (simp_all add: price_batches_def stock_batches_def)

lemma batches_Cons [simp]:
  "price_batches (e # tr) = (case price_batch e of None \<Rightarrow> [] | Some b \<Rightarrow> [b]) @ price_batches tr"
  "stock_batches (e # tr) = (case stock_batch e of None \<Rightarrow> [] | Some b \<Rightarrow> [b]) @ stock_batches tr"
  by (simp_all add: price_batches_def stock_batches_def split: option.splits)

lemma price_batches_append [simp]:
  "price_batches (xs @ ys) = price_batches xs @ price_batches ys"
  by (induction xs) simp_all

lemma stock_batches_append [simp]:
  "stock_batches (xs @ ys) = stock_batches xs @ stock_batches ys"
  by (induction xs) simp_all

lemma batches_of_updates [simp]:
  "price_batches (map (Update_Price c) bs) = bs"
  "stock_batches (map (Update_Stocks c) bs) = bs"
  "price_batches (map (Update_Stocks c) bs) = []"
  "stock_batches (map (Update_Price c) bs) = []"
  by (induction bs) simp_all

lemma batches_of_fetches:
  "list_all (fetch_of c) pages \<Longrightarrow> price_batches pages = [] \<and> stock_batches pages = []"
proof (induction pages)
  case Nil
  show ?case by simp
next
  case (Cons e pages)
  then show ?case by (cases e) simp_all
qed

lemma stock_phase_fetches:
  "list_all (fetch_of c) pages \<Longrightarrow> filter stock_phase pages = pages"
proof (induction pages)
  case Nil
  show ?case by simp
next
  case (Cons e pages)
  then show ?case by (cases e) simp_all
qed

lemma stock_phase_updates [simp]:
  "filter stock_phase (map (Update_Stocks c) bs) = map (Update_Stocks c) bs"
  "filter stock_phase (map (Update_Price c) bs) = []"
  by (induction bs) simp_all

text \<open>The loops of \<open>get_offer_ids\<close> add page requests for their account to the trace, at
  least one, and nothing else.\<close>

lemma seller_get_offer_ids_loop_trace:
  assumes "seller_get_offer_ids_loop W c l pl tr = Some y"
  shows "\<exists>pages. fst y = tr @ pages \<and> pages \<noteq> [] \<and> list_all (fetch_of c) pages"
  using assms
proof (induction rule: seller_get_offer_ids_loop.raw_induct [rotated 1, consumes 1])
  case (1 loop W c l pl tr y)
  show ?case
  proof (cases "get_product_list W tr c l")
    case (Inl e)
    with 1(2) show ?thesis by auto
  next
    case (Inr some_prod)
    show ?thesis
    proof (cases "page_total some_prod = length (pl @ page_items some_prod)")
      case True
      with Inr 1(2) show ?thesis by auto
    next
      case False
      with Inr 1(2) have "loop W c (page_last_id some_prod) (pl @ page_items some_prod)
                   (tr @ [Get_Product_List c l]) = Some y" by simp
      from 1(1) [OF this] obtain pages where
        "fst y = (tr @ [Get_Product_List c l]) @ pages" "list_all (fetch_of c) pages" by blast
      then show ?thesis
        by (intro exI [of _ "Get_Product_List c l # pages"]) simp
    qed
  qed
qed

lemma market_get_offer_ids_loop_trace:
  assumes "market_get_offer_ids_loop W c l pl tr = Some y"
  shows "\<exists>pages. fst y = tr @ pages \<and> pages \<noteq> [] \<and> list_all (fetch_of c) pages"
  using assms
proof (induction rule: market_get_offer_ids_loop.raw_induct [rotated 1, consumes 1])
  case (1 loop W c l pl tr y)
  show ?case
  proof (cases "get_product_list W tr c l")
    case (Inl e)
    with 1(2) show ?thesis by auto
  next
    case (Inr some_prod)
    show ?thesis
    proof (cases "nextPageToken some_prod = None \<or> nextPageToken some_prod = Some []")
      case True
      with Inr 1(2) show ?thesis by auto
    next
      case False
      then obtain nxt where nxt: "nextPageToken some_prod = Some nxt" "nxt \<noteq> []" by auto
      with Inr 1(2) have "loop W c nxt (pl @ offerMappingEntries some_prod)
                   (tr @ [Get_Product_List c l]) = Some y" by simp
      from 1(1) [OF this] obtain pages where
        "fst y = (tr @ [Get_Product_List c l]) @ pages" "list_all (fetch_of c) pages" by blast
      then show ?thesis
        by (intro exI [of _ "Get_Product_List c l # pages"]) simp
    qed
  qed
qed

lemma seller_get_offer_ids_trace:
  "seller_get_offer_ids W c tr = Some (tr', r) \<Longrightarrow>
   \<exists>pages. tr' = tr @ pages \<and> pages \<noteq> [] \<and> list_all (fetch_of c) pages"
  using seller_get_offer_ids_loop_trace [of W c "[]" "[]" tr "(tr', r)"]
  by (simp add: seller_get_offer_ids_def)

lemma market_get_offer_ids_trace:
  "market_get_offer_ids W c tr = Some (tr', r) \<Longrightarrow>
   \<exists>pages. tr' = tr @ pages \<and> pages \<noteq> [] \<and> list_all (fetch_of c) pages"
  using market_get_offer_ids_loop_trace [of W c "[]" "[]" tr "(tr', r)"]
  by (simp add: market_get_offer_ids_def)

text \<open>The submission loop sends the batches in order and stops after the first one that
  is refused.\<close>

lemma submit_batches_trace:
  "submit_batches call ev bs tr = (tr', r) \<Longrightarrow>
   \<exists>k \<le> length bs. tr' = tr @ map ev (take k bs) \<and> (r = None \<longrightarrow> k = length bs)"
proof (induction bs arbitrary: tr)
  case Nil
  then show ?case by simp
next
  case (Cons b bs)
  show ?case
  proof (cases "call tr b")
    case (Some e)
    with Cons.prems show ?thesis
      by (intro exI [of _ 1]) auto
  next
    case None
    with Cons.prems have "submit_batches call ev bs (tr @ [ev b]) = (tr', r)" by simp
    from Cons.IH [OF this] obtain k where
      "k \<le> length bs" "tr' = (tr @ [ev b]) @ map ev (take k bs)" "r = None \<longrightarrow> k = length bs"
      by blast
    then show ?thesis
      by (intro exI [of _ "Suc k"]) simp
  qed
qed

lemma submit_batches_accepted:
  "(\<forall>t b. call t b = None) \<Longrightarrow> submit_batches call ev bs tr = (tr @ map ev bs, None)"
  by (induction bs arbitrary: tr) simp_all

lemma push_in_batches_trace:
  assumes n: "0 < n" and push: "push_in_batches call ev n payload tr = (tr', r)"
  shows "\<exists>chunks k. divide payload n = Inr chunks \<and> k \<le> length chunks
           \<and> tr' = tr @ map ev (take k chunks) \<and> (r = None \<longrightarrow> k = length chunks)"
proof -
  from divide_shape [OF n, of payload] obtain chunks where c: "divide payload n = Inr chunks"
    by blast
  with push have "submit_batches call ev chunks tr = (tr', r)"
    by (simp add: push_in_batches_def)
  from submit_batches_trace [OF this] c show ?thesis by blast
qed

lemma take_chunks_sized:
  assumes n: "0 < n" and c: "divide payload n = Inr chunks"
  shows "batches_of_size n (take k chunks)"
proof -
  from divide_shape [OF n, of payload] c have
    full: "\<forall>i. Suc i < length chunks \<longrightarrow> length (chunks ! i) = n"
    and each: "\<forall>b \<in> set chunks. b \<noteq> [] \<and> length b \<le> n"
    by auto
  have "\<forall>b \<in> set (take k chunks). b \<noteq> [] \<and> length b \<le> n"
    using each by (meson in_set_takeD)
  moreover have "\<forall>i. Suc i < length (take k chunks) \<longrightarrow> length (take k chunks ! i) = n"
    using full by simp
  ultimately show ?thesis by (simp add: batches_of_size_def)
qed

lemma batches_of_size_Nil [simp]: "batches_of_size n []"
  by (simp add: batches_of_size_def)

text \<open>The ways in which the \<open>try\<close> block of seller.py's \<open>main\<close> can end.\<close>

lemma seller_main_try_cases [consumes 1,
    case_names ids_failed download_failed reconcile_failed stocks_refused prices_pushed]:
  assumes run: "seller_main_try U W c = Some (tr, r)"
  obtains
    (ids_failed) e where
      "seller_get_offer_ids W c [] = Some (tr, Inl e)" "r = Some e"
  | (download_failed) tr1 ids e where
      "seller_get_offer_ids W c [] = Some (tr1, Inr ids)"
      "download_stock W tr1 = Inl e"
      "tr = tr1 @ [Download_Stock]" "r = Some e"
  | (reconcile_failed) tr1 ids feed ids' e where
      "seller_get_offer_ids W c [] = Some (tr1, Inr ids)"
      "download_stock W tr1 = Inr feed"
      "seller_create_stocks U feed ids = (ids', Inl e)"
      "tr = tr1 @ [Download_Stock]" "r = Some e"
  | (stocks_refused) tr1 ids feed ids' stocks chunks k e where
      "seller_get_offer_ids W c [] = Some (tr1, Inr ids)"
      "download_stock W tr1 = Inr feed"
      "seller_create_stocks U feed ids = (ids', Inr stocks)"
      "divide stocks 100 = Inr chunks" "k \<le> length chunks"
      "tr = tr1 @ [Download_Stock] @ map (Update_Stocks c) (take k chunks)" "r = Some e"
  | (prices_pushed) tr1 ids feed ids' stocks chunks pchunks j where
      "seller_get_offer_ids W c [] = Some (tr1, Inr ids)"
      "download_stock W tr1 = Inr feed"
      "seller_create_stocks U feed ids = (ids', Inr stocks)"
      "divide stocks 100 = Inr chunks"
      "divide (map ozon_price_entry (filter (\<lambda>w. watch_code w \<in> set ids') feed)) 900
         = Inr pchunks"
      "j \<le> length pchunks"
      "tr = tr1 @ [Download_Stock] @ map (Update_Stocks c) chunks
              @ map (Update_Price c) (take j pchunks)"
      "r = None \<longrightarrow> j = length pchunks"
proof -
  from run obtain tr1 res where g: "seller_get_offer_ids W c [] = Some (tr1, res)"
    by (cases "seller_get_offer_ids W c []") (auto simp: seller_main_try_def)
  show thesis
  proof (cases res)
    case (Inl e)
    with run g have "tr = tr1" "r = Some e" by (simp_all add: seller_main_try_def)
    with g Inl show thesis by (intro ids_failed [of e]) simp_all
  next
    case ids: (Inr ids)
    note g = g [unfolded ids]
    show thesis
    proof (cases "download_stock W tr1")
      case (Inl e)
      with run g have "tr = tr1 @ [Download_Stock]" "r = Some e"
        by (simp_all add: seller_main_try_def)
      with g Inl show thesis by (intro download_failed [of tr1 ids e])
    next
      case feed: (Inr feed)
      obtain ids' sres where cs: "seller_create_stocks U feed ids = (ids', sres)"
        by (cases "seller_create_stocks U feed ids")
      show thesis
      proof (cases sres)
        case (Inl e)
        with run g feed cs have "tr = tr1 @ [Download_Stock]" "r = Some e"
          by (simp_all add: seller_main_try_def)
        with g feed cs Inl show thesis by (intro reconcile_failed [of tr1 ids feed ids' e]) simp_all
      next
        case stocks: (Inr stocks)
        note cs = cs [unfolded stocks]
        obtain tr2 r2 where p1: "push_in_batches (\<lambda>t. update_stocks W t c) (Update_Stocks c) 100
                                   stocks (tr1 @ [Download_Stock]) = (tr2, r2)"
          by (cases "push_in_batches (\<lambda>t. update_stocks W t c) (Update_Stocks c) 100
                                   stocks (tr1 @ [Download_Stock])")
        from push_in_batches_trace [OF _ p1] obtain chunks k where
          ch: "divide stocks 100 = Inr chunks" and k: "k \<le> length chunks"
          and tr2: "tr2 = (tr1 @ [Download_Stock]) @ map (Update_Stocks c) (take k chunks)"
          and full: "r2 = None \<longrightarrow> k = length chunks"
          by auto
        show thesis
        proof (cases r2)
          case (Some e)
          with run g feed cs p1 have "tr = tr2" "r = Some e"
            by (simp_all add: seller_main_try_def)
          with tr2 have "tr = tr1 @ [Download_Stock] @ map (Update_Stocks c) (take k chunks)"
            by simp
          with g feed cs ch k \<open>r = Some e\<close> show thesis
            by (intro stocks_refused [of tr1 ids feed ids' stocks chunks k e])
        next
          case None
          with full have kk: "k = length chunks" by simp
          from run g feed cs p1 None have
            p2: "push_in_batches (\<lambda>t. update_price W t c) (Update_Price c) 900
                   (map ozon_price_entry (filter (\<lambda>w. watch_code w \<in> set ids') feed)) tr2
                 = (tr, r)"
            by (simp add: seller_main_try_def seller_create_prices_eq)
          from push_in_batches_trace [OF _ p2] obtain pchunks j where
            pch: "divide (map ozon_price_entry (filter (\<lambda>w. watch_code w \<in> set ids') feed)) 900
                    = Inr pchunks"
            and j: "j \<le> length pchunks"
            and tr: "tr = tr2 @ map (Update_Price c) (take j pchunks)"
            and pfull: "r = None \<longrightarrow> j = length pchunks"
            by auto
          from tr tr2 kk have "tr = tr1 @ [Download_Stock] @ map (Update_Stocks c) chunks
              @ map (Update_Price c) (take j pchunks)" by simp
          with g feed cs ch pch j pfull show thesis
            by (intro prices_pushed [of tr1 ids feed ids' stocks chunks pchunks j])
        qed
      qed
    qed
  qed
qed

lemma seller_main_result:
  "seller_main U W c = Some (tr, r) \<Longrightarrow>
   r = None \<and> (seller_main_try U W c = Some (tr, None)
      \<or> (\<exists>tr0 e. seller_main_try U W c = Some (tr0, Some e) \<and> tr = tr0 @ [Print (handler e)]))"
  by (auto simp: seller_main_def split: option.splits)

lemma divide_Nil: "0 < n \<Longrightarrow> divide [] n = Inr []"
  by (simp add: divide_def range_step_stop)

lemma seller_create_stocks_remaining:
  assumes "distinct ids" and "seller_create_stocks U feed ids = (ids', Inr stocks)"
  shows "ids' = filter (\<lambda>i. i \<notin> watch_code ` set feed) ids"
proof -
  from assms(2) obtain new where
    "reconcile_loop ozon_stock_entry U feed ids [] = (ids', Inr new)"
    unfolding seller_create_stocks_Inr by blast
  from reconcile_loop_remaining [OF assms(1) this] show ?thesis .
qed

lemma no_match_after_create_stocks:
  assumes "distinct ids" and "seller_create_stocks U feed ids = (ids', Inr stocks)"
  shows "filter (\<lambda>w. watch_code w \<in> set ids') feed = []"
  unfolding seller_create_stocks_remaining [OF assms]
  by (auto simp: filter_empty_conv)

lemma seller_main_try_price_batches:
  assumes run: "seller_main_try U W c = Some (tr, r)"
    and d: "\<And>tr1 ids. seller_get_offer_ids W c [] = Some (tr1, Inr ids) \<Longrightarrow> distinct ids"
  shows "price_batches tr = []"
  using run
proof (cases rule: seller_main_try_cases)
  case (ids_failed e)
  from seller_get_offer_ids_trace [OF ids_failed(1)] show ?thesis
    by (auto dest: batches_of_fetches)
next
  case (download_failed tr1 ids e)
  from seller_get_offer_ids_trace [OF download_failed(1)] download_failed(3) show ?thesis
    by (auto dest: batches_of_fetches)
next
  case (reconcile_failed tr1 ids feed ids' e)
  from seller_get_offer_ids_trace [OF reconcile_failed(1)] reconcile_failed(4) show ?thesis
    by (auto dest: batches_of_fetches)
next
  case (stocks_refused tr1 ids feed ids' stocks chunks k e)
  from seller_get_offer_ids_trace [OF stocks_refused(1)] stocks_refused(6) show ?thesis
    by (auto dest: batches_of_fetches)
next
  case (prices_pushed tr1 ids feed ids' stocks chunks pchunks j)
  from d [OF prices_pushed(1)] have "distinct ids" .
  from no_match_after_create_stocks [OF this prices_pushed(3)] prices_pushed(5)
  have "pchunks = []" by (simp add: divide_Nil)
  with seller_get_offer_ids_trace [OF prices_pushed(1)] prices_pushed(7) show ?thesis
    by (auto dest: batches_of_fetches)
qed

text \<open>
  Claim C3. Let the offer ids be free of duplicates. For every feed, when \<open>create_stocks\<close>
  of seller.py returns, \<open>create_prices\<close> called on the list that \<open>create_stocks\<close> has left
  returns the empty list. Hence a run of \<open>main\<close> of seller.py in which \<open>get_offer_ids\<close>
  returns these ids ends, no exception leaves it, and its trace holds no price update at
  all, whatever the marketplace and the feed answer.
\<close>

theorem seller_main_submits_no_price:
  assumes "distinct offer_ids"
  shows
    "(seller_create_stocks U watch_remnants offer_ids = (ids', Inr stocks) \<longrightarrow>
        seller_create_prices watch_remnants ids' = Inr [])
     \<and> (seller_get_offer_ids W client_id [] = Some (tr1, Inr offer_ids) \<longrightarrow>
        (\<exists>tr. seller_main U W client_id = Some (tr, None) \<and> price_batches tr = []))"
proof (intro conjI impI)
  assume "seller_create_stocks U watch_remnants offer_ids = (ids', Inr stocks)"
  from no_match_after_create_stocks [OF assms this]
  show "seller_create_prices watch_remnants ids' = Inr []"
    by (simp add: seller_create_prices_eq)
next
  assume g: "seller_get_offer_ids W client_id [] = Some (tr1, Inr offer_ids)"
  then obtain tr0 r0 where body: "seller_main_try U W client_id = Some (tr0, r0)"
    by (cases "seller_main_try U W client_id") (auto simp: seller_main_try_def)
  have d: "distinct ids" if "seller_get_offer_ids W client_id [] = Some (t, Inr ids)" for t ids
    using that g assms by simp
  from seller_main_try_price_batches [OF body d] have none: "price_batches tr0 = []" .
  show "\<exists>tr. seller_main U W client_id = Some (tr, None) \<and> price_batches tr = []"
  proof (cases r0)
    case None
    with body none show ?thesis by (simp add: seller_main_def)
  next
    case (Some e)
    with body none show ?thesis by (simp add: seller_main_def)
  qed
qed

lemma scenario_ozon_offer_ids:
  "seller_get_offer_ids scenario_ozon c tr
     = Some (tr @ [Get_Product_List c []], Inr scenario_offer_ids)"
  by (simp add: seller_get_offer_ids_def seller_get_offer_ids_loop.simps scenario_ozon_def
      scenario_offer_ids_def)

lemma scenario_seller_stocks:
  "seller_create_stocks plain_tables scenario_feed scenario_offer_ids
     = ([lit ''002''],
        Inr [\<lparr>stock_offer_id = lit ''001'', stock = 10\<rparr>,
             \<lparr>stock_offer_id = lit ''002'', stock = 0\<rparr>])"
  by (simp add: scenario_offer_ids_def scenario_feed_def seller_create_stocks_def
      stock_of_count_def py_int_def parse_digits_def ascii_digit_def ascii_space_def
      lit_def plain_tables_def)

lemma scenario_seller_main:
  "seller_main plain_tables scenario_ozon (lit ''client'')
     = Some ([Get_Product_List (lit ''client'') [], Download_Stock,
              Update_Stocks (lit ''client'')
                [\<lparr>stock_offer_id = lit ''001'', stock = 10\<rparr>,
                 \<lparr>stock_offer_id = lit ''002'', stock = 0\<rparr>]],
             None)"
proof -
  have feed: "download_stock scenario_ozon t = Inr scenario_feed" for t
    by (simp add: scenario_ozon_def)
  have accept: "update_stocks scenario_ozon t a b = None" for t a b
    by (simp add: scenario_ozon_def)
  have no_price: "seller_create_prices scenario_feed [lit ''002''] = Inr []"
    by (simp add: scenario_feed_def lit_def)
  show ?thesis
    by (simp add: seller_main_def seller_main_try_def scenario_ozon_offer_ids feed
        scenario_seller_stocks accept no_price push_in_batches_def divide_def slice_def
        range_step.simps)
qed

theorem seller_main_submits_no_price_witness:
  "distinct scenario_offer_ids
   \<and> seller_create_stocks plain_tables scenario_feed scenario_offer_ids
       = ([lit ''002''],
          Inr [\<lparr>stock_offer_id = lit ''001'', stock = 10\<rparr>,
               \<lparr>stock_offer_id = lit ''002'', stock = 0\<rparr>])
   \<and> seller_create_prices scenario_feed [lit ''002''] = Inr []
   \<and> seller_get_offer_ids scenario_ozon (lit ''client'') []
       = Some ([Get_Product_List (lit ''client'') []], Inr scenario_offer_ids)
   \<and> seller_main plain_tables scenario_ozon (lit ''client'')
       = Some ([Get_Product_List (lit ''client'') [], Download_Stock,
                Update_Stocks (lit ''client'')
                  [\<lparr>stock_offer_id = lit ''001'', stock = 10\<rparr>,
                   \<lparr>stock_offer_id = lit ''002'', stock = 0\<rparr>]],
               None)
   \<and> price_batches
        [Get_Product_List (lit ''client'') [], Download_Stock,
         Update_Stocks (lit ''client'')
           [\<lparr>stock_offer_id = lit ''001'', stock = 10\<rparr>,
            \<lparr>stock_offer_id = lit ''002'', stock = (0::int)\<rparr>] :: ozon_event] = []"
  using seller_main_submits_no_price [of scenario_offer_ids plain_tables scenario_feed
      "[lit ''002'']"
      "[\<lparr>stock_offer_id = lit ''001'', stock = 10\<rparr>, \<lparr>stock_offer_id = lit ''002'', stock = 0\<rparr>]"
      scenario_ozon "lit ''client''" "[Get_Product_List (lit ''client'') []]"]
  by (simp add: scenario_seller_main scenario_seller_stocks scenario_ozon_offer_ids)
    (simp add: scenario_offer_ids_def lit_def)

section \<open>The sizes of the submitted batches\<close>

lemma push_new_batches:
  assumes n: "0 < n" and push: "push_in_batches call ev n payload tr = (tr', r)"
  shows "\<exists>bs. tr' = tr @ map ev bs \<and> batches_of_size n bs \<and> (r = None \<longrightarrow> concat bs = payload)"
proof -
  from push_in_batches_trace [OF n push] obtain chunks k where
    c: "divide payload n = Inr chunks" and tr': "tr' = tr @ map ev (take k chunks)"
    and full: "r = None \<longrightarrow> k = length chunks"
    by blast
  from divide_shape [OF n, of payload] c have cat: "concat chunks = payload" by auto
  have "r = None \<longrightarrow> concat (take k chunks) = payload"
    using full cat by simp
  with tr' take_chunks_sized [OF n c, of k] show ?thesis by blast
qed

lemma seller_main_try_batches:
  assumes run: "seller_main_try U W c = Some (tr, r)"
  shows "batches_of_size 100 (stock_batches tr) \<and> batches_of_size 900 (price_batches tr)"
  using run
proof (cases rule: seller_main_try_cases)
  case (ids_failed e)
  from seller_get_offer_ids_trace [OF ids_failed(1)] show ?thesis
    by (auto dest: batches_of_fetches)
next
  case (download_failed tr1 ids e)
  from seller_get_offer_ids_trace [OF download_failed(1)] download_failed(3) show ?thesis
    by (auto dest: batches_of_fetches)
next
  case (reconcile_failed tr1 ids feed ids' e)
  from seller_get_offer_ids_trace [OF reconcile_failed(1)] reconcile_failed(4) show ?thesis
    by (auto dest: batches_of_fetches)
next
  case (stocks_refused tr1 ids feed ids' stocks chunks k e)
  have "batches_of_size 100 (take k chunks)"
    by (rule take_chunks_sized [OF _ stocks_refused(4)]) simp
  with seller_get_offer_ids_trace [OF stocks_refused(1)] stocks_refused(6) show ?thesis
    by (auto dest: batches_of_fetches)
next
  case (prices_pushed tr1 ids feed ids' stocks chunks pchunks j)
  have "batches_of_size 100 (take (length chunks) chunks)"
    by (rule take_chunks_sized [OF _ prices_pushed(4)]) simp
  moreover have "batches_of_size 900 (take j pchunks)"
    by (rule take_chunks_sized [OF _ prices_pushed(5)]) simp
  ultimately show ?thesis
    using seller_get_offer_ids_trace [OF prices_pushed(1)] prices_pushed(7)
    by (auto dest: batches_of_fetches)
qed

lemma seller_main_batches:
  assumes "seller_main U W c = Some (tr, r)"
  shows "batches_of_size 100 (stock_batches tr) \<and> batches_of_size 900 (price_batches tr)"
proof -
  from seller_main_result [OF assms] consider
    "seller_main_try U W c = Some (tr, None)"
    | tr0 e where "seller_main_try U W c = Some (tr0, Some e)" "tr = tr0 @ [Print (handler e)]"
    by blast
  then show ?thesis
  proof cases
    case 1
    then show ?thesis by (rule seller_main_try_batches)
  next
    case 2
    from seller_main_try_batches [OF 2(1)] 2(2) show ?thesis by simp
  qed
qed

lemma seller_upload_prices_trace:
  assumes run: "seller_upload_prices W feed c tr0 = Some (tr1, r1)"
  shows "\<exists>new. tr1 = tr0 @ new \<and> batches_of_size 1000 (price_batches new)
           \<and> stock_batches new = []
           \<and> (\<forall>prices. r1 = Inr prices \<longrightarrow> concat (price_batches new) = prices)"
proof -
  from run obtain t res where g: "seller_get_offer_ids W c tr0 = Some (t, res)"
    by (cases "seller_get_offer_ids W c tr0") (auto simp: seller_upload_prices_def)
  from seller_get_offer_ids_trace [OF g] obtain pages where
    t: "t = tr0 @ pages" and pages: "list_all (fetch_of c) pages" by blast
  note none = batches_of_fetches [OF pages]
  show ?thesis
  proof (cases res)
    case (Inl e)
    with run g have "tr1 = t" "r1 = Inl e" by (simp_all add: seller_upload_prices_def)
    with t none show ?thesis by (intro exI [of _ pages]) simp
  next
    case (Inr ids)
    define prices where "prices = map ozon_price_entry (filter (\<lambda>w. watch_code w \<in> set ids) feed)"
    obtain tr2 r2 where push: "push_in_batches (\<lambda>t. update_price W t c) (Update_Price c) 1000
                                 prices t = (tr2, r2)"
      by (cases "push_in_batches (\<lambda>t. update_price W t c) (Update_Price c) 1000 prices t")
    from push_new_batches [OF _ push] obtain bs where
      tr2: "tr2 = t @ map (Update_Price c) bs" and sz: "batches_of_size 1000 bs"
      and cat: "r2 = None \<longrightarrow> concat bs = prices" by auto
    from run g Inr push have res: "tr1 = tr2" "r1 = (case r2 of Some e \<Rightarrow> Inl e | None \<Rightarrow> Inr prices)"
      by (simp_all add: seller_upload_prices_def seller_create_prices_eq prices_def
          split: option.splits)
    have "\<forall>ps. r1 = Inr ps \<longrightarrow> concat bs = ps"
      using res(2) cat by (auto split: option.splits)
    with res(1) tr2 t sz none show ?thesis
      by (intro exI [of _ "pages @ map (Update_Price c) bs"]) simp
  qed
qed

lemma seller_upload_stocks_trace:
  assumes run: "seller_upload_stocks U W feed c tr0 = Some (tr1, r1)"
  shows "\<exists>new. tr1 = tr0 @ new \<and> batches_of_size 100 (stock_batches new)
           \<and> price_batches new = []
           \<and> (\<forall>not_empty stocks. r1 = Inr (not_empty, stocks)
                 \<longrightarrow> concat (stock_batches new) = stocks)"
proof -
  from run obtain t res where g: "seller_get_offer_ids W c tr0 = Some (t, res)"
    by (cases "seller_get_offer_ids W c tr0") (auto simp: seller_upload_stocks_def)
  from seller_get_offer_ids_trace [OF g] obtain pages where
    t: "t = tr0 @ pages" and pages: "list_all (fetch_of c) pages" by blast
  note none = batches_of_fetches [OF pages]
  show ?thesis
  proof (cases res)
    case (Inl e)
    with run g have "tr1 = t" "r1 = Inl e" by (simp_all add: seller_upload_stocks_def)
    with t none show ?thesis by (intro exI [of _ pages]) simp
  next
    case (Inr ids)
    obtain ids' sres where cs: "seller_create_stocks U feed ids = (ids', sres)"
      by (cases "seller_create_stocks U feed ids")
    show ?thesis
    proof (cases sres)
      case (Inl e)
      with run g Inr cs have "tr1 = t" "r1 = Inl e" by (simp_all add: seller_upload_stocks_def)
      with t none show ?thesis by (intro exI [of _ pages]) simp
    next
      case stocks: (Inr stocks)
      obtain tr2 r2 where push: "push_in_batches (\<lambda>t. update_stocks W t c) (Update_Stocks c) 100
                                   stocks t = (tr2, r2)"
        by (cases "push_in_batches (\<lambda>t. update_stocks W t c) (Update_Stocks c) 100 stocks t")
      from push_new_batches [OF _ push] obtain bs where
        tr2: "tr2 = t @ map (Update_Stocks c) bs" and sz: "batches_of_size 100 bs"
        and cat: "r2 = None \<longrightarrow> concat bs = stocks" by auto
      from run g Inr cs stocks push have res: "tr1 = tr2"
        "r1 = (case r2 of Some e \<Rightarrow> Inl e
               | None \<Rightarrow> Inr (filter (\<lambda>s. stock s \<noteq> 0) stocks, stocks))"
        by (simp_all add: seller_upload_stocks_def split: option.splits)
      have "\<forall>ne ss. r1 = Inr (ne, ss) \<longrightarrow> concat bs = ss"
        using res(2) cat by (auto split: option.splits)
      with res(1) tr2 t sz none show ?thesis
        by (intro exI [of _ "pages @ map (Update_Stocks c) bs"]) simp
    qed
  qed
qed

lemma market_upload_prices_trace:
  assumes run: "market_upload_prices U W feed c tr0 = Some (tr1, r1)"
  shows "\<exists>new. tr1 = tr0 @ new \<and> batches_of_size 500 (price_batches new)
           \<and> stock_batches new = []
           \<and> (\<forall>prices. r1 = Inr prices \<longrightarrow> concat (price_batches new) = prices)"
proof -
  from run obtain t res where g: "market_get_offer_ids W c tr0 = Some (t, res)"
    by (cases "market_get_offer_ids W c tr0") (auto simp: market_upload_prices_def)
  from market_get_offer_ids_trace [OF g] obtain pages where
    t: "t = tr0 @ pages" and pages: "list_all (fetch_of c) pages" by blast
  note none = batches_of_fetches [OF pages]
  show ?thesis
  proof (cases res)
    case (Inl e)
    with run g have "tr1 = t" "r1 = Inl e" by (simp_all add: market_upload_prices_def)
    with t none show ?thesis by (intro exI [of _ pages]) simp
  next
    case (Inr ids)
    show ?thesis
    proof (cases "market_create_prices U feed ids")
      case (Inl e)
      with run g Inr have "tr1 = t" "r1 = Inl e" by (simp_all add: market_upload_prices_def)
      with t none show ?thesis by (intro exI [of _ pages]) simp
    next
      case prices: (Inr prices)
      obtain tr2 r2 where push: "push_in_batches (\<lambda>t. update_price W t c) (Update_Price c) 500
                                   prices t = (tr2, r2)"
        by (cases "push_in_batches (\<lambda>t. update_price W t c) (Update_Price c) 500 prices t")
      from push_new_batches [OF _ push] obtain bs where
        tr2: "tr2 = t @ map (Update_Price c) bs" and sz: "batches_of_size 500 bs"
        and cat: "r2 = None \<longrightarrow> concat bs = prices" by auto
      from run g Inr prices push have res: "tr1 = tr2"
        "r1 = (case r2 of Some e \<Rightarrow> Inl e | None \<Rightarrow> Inr prices)"
        by (simp_all add: market_upload_prices_def split: option.splits)
      have "\<forall>ps. r1 = Inr ps \<longrightarrow> concat bs = ps"
        using res(2) cat by (auto split: option.splits)
      with res(1) tr2 t sz none show ?thesis
        by (intro exI [of _ "pages @ map (Update_Price c) bs"]) simp
    qed
  qed
qed

lemma market_upload_stocks_trace:
  assumes run: "market_upload_stocks U W feed c wh tr0 = Some (tr1, r1)"
  shows "\<exists>new. tr1 = tr0 @ new \<and> batches_of_size 2000 (stock_batches new)
           \<and> price_batches new = []
           \<and> (\<forall>not_empty stocks. r1 = Inr (not_empty, stocks)
                 \<longrightarrow> concat (stock_batches new) = stocks)"
proof -
  from run obtain t res where g: "market_get_offer_ids W c tr0 = Some (t, res)"
    by (cases "market_get_offer_ids W c tr0") (auto simp: market_upload_stocks_def)
  from market_get_offer_ids_trace [OF g] obtain pages where
    t: "t = tr0 @ pages" and pages: "list_all (fetch_of c) pages" by blast
  note none = batches_of_fetches [OF pages]
  show ?thesis
  proof (cases res)
    case (Inl e)
    with run g have "tr1 = t" "r1 = Inl e" by (simp_all add: market_upload_stocks_def)
    with t none show ?thesis by (intro exI [of _ pages]) simp
  next
    case (Inr ids)
    obtain ids' sres where cs: "market_create_stocks U (utcnow W t) feed ids wh = (ids', sres)"
      by (cases "market_create_stocks U (utcnow W t) feed ids wh")
    show ?thesis
    proof (cases sres)
      case (Inl e)
      with run g Inr cs have "tr1 = t" "r1 = Inl e" by (simp_all add: market_upload_stocks_def)
      with t none show ?thesis by (intro exI [of _ pages]) simp
    next
      case stocks: (Inr stocks)
      obtain tr2 r2 where push: "push_in_batches (\<lambda>t. update_stocks W t c) (Update_Stocks c) 2000
                                   stocks t = (tr2, r2)"
        by (cases "push_in_batches (\<lambda>t. update_stocks W t c) (Update_Stocks c) 2000 stocks t")
      from push_new_batches [OF _ push] obtain bs where
        tr2: "tr2 = t @ map (Update_Stocks c) bs" and sz: "batches_of_size 2000 bs"
        and cat: "r2 = None \<longrightarrow> concat bs = stocks" by auto
      from run g Inr cs stocks push have res: "tr1 = tr2"
        "\<forall>ne ss. r1 = Inr (ne, ss) \<longrightarrow> r2 = None \<and> ss = stocks"
        by (auto simp: market_upload_stocks_def split: option.splits)
      have "\<forall>ne ss. r1 = Inr (ne, ss) \<longrightarrow> concat bs = ss"
        using res(2) cat by blast
      with res(1) tr2 t sz none show ?thesis
        by (intro exI [of _ "pages @ map (Update_Stocks c) bs"]) simp
    qed
  qed
qed

text \<open>One campaign block of market.py's \<open>main\<close>: page requests, then stock updates.\<close>

lemma market_main_campaign_trace:
  assumes run: "market_main_campaign U W feed c wh tr0 = Some (tr1, r1)"
  shows "\<exists>pages bs. tr1 = tr0 @ pages @ map (Update_Stocks c) bs
           \<and> list_all (fetch_of c) pages \<and> batches_of_size 2000 bs"
proof -
  from run obtain t res where g: "market_get_offer_ids W c tr0 = Some (t, res)"
    by (cases "market_get_offer_ids W c tr0") (auto simp: market_main_campaign_def)
  from market_get_offer_ids_trace [OF g] obtain pages where
    t: "t = tr0 @ pages" and pages: "list_all (fetch_of c) pages" by blast
  show ?thesis
  proof (cases res)
    case (Inl e)
    with run g have "tr1 = t" by (simp add: market_main_campaign_def)
    with t pages show ?thesis by (intro exI [of _ pages] exI [of _ "[]"]) simp
  next
    case (Inr ids)
    obtain ids' sres where cs: "market_create_stocks U (utcnow W t) feed ids wh = (ids', sres)"
      by (cases "market_create_stocks U (utcnow W t) feed ids wh")
    show ?thesis
    proof (cases sres)
      case (Inl e)
      with run g Inr cs have "tr1 = t" by (simp add: market_main_campaign_def)
      with t pages show ?thesis by (intro exI [of _ pages] exI [of _ "[]"]) simp
    next
      case stocks: (Inr stocks)
      obtain tr2 r2 where push: "push_in_batches (\<lambda>t. update_stocks W t c) (Update_Stocks c) 2000
                                   stocks t = (tr2, r2)"
        by (cases "push_in_batches (\<lambda>t. update_stocks W t c) (Update_Stocks c) 2000 stocks t")
      from push_new_batches [OF _ push] obtain bs where
        tr2: "tr2 = t @ map (Update_Stocks c) bs" and sz: "batches_of_size 2000 bs" by auto
      from run g Inr cs stocks push have "tr1 = tr2"
        by (auto simp: market_main_campaign_def split: option.splits)
      with tr2 t sz pages show ?thesis
        by (intro exI [of _ pages] exI [of _ bs]) simp
    qed
  qed
qed

lemma market_main_campaign_batches:
  assumes run: "market_main_campaign U W feed c wh tr0 = Some (tr1, r1)"
  shows "\<exists>new. tr1 = tr0 @ new \<and> batches_of_size 2000 (stock_batches new)"
proof -
  from market_main_campaign_trace [OF run] obtain pages bs where
    "tr1 = tr0 @ pages @ map (Update_Stocks c) bs" "list_all (fetch_of c) pages"
    "batches_of_size 2000 bs" by blast
  then show ?thesis
    by (intro exI [of _ "pages @ map (Update_Stocks c) bs"]) (simp add: batches_of_fetches)
qed

lemma market_main_try_batches:
  assumes run: "market_main_try U W feed fbs dbs whf whd tr0 = Some (tr, r)"
  shows "\<exists>new1 new2. tr = tr0 @ new1 @ new2
     \<and> batches_of_size 2000 (stock_batches new1) \<and> batches_of_size 2000 (stock_batches new2)"
proof -
  from run obtain t1 r1 where first: "market_main_campaign U W feed fbs whf tr0 = Some (t1, r1)"
    by (cases "market_main_campaign U W feed fbs whf tr0") (auto simp: market_main_try_def)
  from market_main_campaign_batches [OF first] obtain new1 where
    n1: "t1 = tr0 @ new1" "batches_of_size 2000 (stock_batches new1)" by blast
  show ?thesis
  proof (cases r1)
    case (Some e)
    with run first have "tr = t1" by (simp add: market_main_try_def)
    with n1 show ?thesis by (intro exI [of _ new1] exI [of _ "[]"]) simp
  next
    case None
    with run first have "market_main_campaign U W feed dbs whd t1 = Some (tr, r)"
      by (simp add: market_main_try_def)
    from market_main_campaign_batches [OF this] obtain new2 where
      "tr = t1 @ new2" "batches_of_size 2000 (stock_batches new2)" by blast
    with n1 show ?thesis by (intro exI [of _ new1] exI [of _ new2]) simp
  qed
qed

lemma market_main_batches:
  assumes run: "market_main U W fbs dbs whf whd = Some (tr, r)"
  shows "\<forall>b \<in> set (stock_batches tr). b \<noteq> [] \<and> length b \<le> 2000"
proof (cases "download_stock W []")
  case (Inl e)
  with run have "tr = [Download_Stock]" by (simp add: market_main_def)
  then show ?thesis by simp
next
  case (Inr feed)
  with run obtain t0 r0 where
    body: "market_main_try U W feed fbs dbs whf whd [Download_Stock] = Some (t0, r0)"
    and tr: "stock_batches tr = stock_batches t0"
    by (auto simp: market_main_def split: option.splits)
  from market_main_try_batches [OF body] obtain new1 new2 where
    t0: "t0 = [Download_Stock] @ new1 @ new2"
    and sz: "batches_of_size 2000 (stock_batches new1)" "batches_of_size 2000 (stock_batches new2)"
    by blast
  from tr t0 have "stock_batches tr = stock_batches new1 @ stock_batches new2" by simp
  with sz show ?thesis by (auto simp: batches_of_size_def)
qed

section \<open>The scenario of the specification, run through both drivers\<close>

lemma scenario_market_offer_ids:
  "market_get_offer_ids scenario_market c tr
     = Some (tr @ [Get_Product_List c []], Inr scenario_offer_ids)"
  by (simp add: market_get_offer_ids_def market_get_offer_ids_loop.simps scenario_market_def)

lemma scenario_seller_stocks':
  "seller_create_stocks plain_tables scenario_feed scenario_offer_ids
     = ([lit ''002''], Inr scenario_stocks)"
  by (simp add: scenario_seller_stocks scenario_stocks_def)

lemma scenario_market_stocks:
  "market_create_stocks plain_tables (lit ''2020-10-10T10:00:00Z'') scenario_feed
     scenario_offer_ids wh = ([lit ''002''], Inr (scenario_skus wh))"
  by (simp add: scenario_offer_ids_def scenario_feed_def market_create_stocks_def
      stock_of_count_def py_int_def parse_digits_def ascii_digit_def ascii_space_def
      lit_def plain_tables_def scenario_skus_def)

lemma scenario_seller_prices:
  "seller_create_prices scenario_feed scenario_offer_ids = Inr scenario_prices"
  by (simp add: scenario_offer_ids_def scenario_feed_def scenario_prices_def
      price_conversion_def re_sub_non_digit_def ascii_digit_def lit_def)

lemma scenario_market_prices:
  "market_create_prices plain_tables scenario_feed scenario_offer_ids = Inr scenario_offer_prices"
  by (simp add: scenario_offer_ids_def scenario_feed_def scenario_offer_prices_def
      price_conversion_def re_sub_non_digit_def py_int_def parse_digits_def
      ascii_digit_def ascii_space_def lit_def plain_tables_def)

lemma push_one_batch:
  assumes "\<forall>t b. call t b = None" and "payload \<noteq> []" and "length payload \<le> n"
  shows "push_in_batches call ev n payload tr = (tr @ [ev payload], None)"
proof -
  from assms(2,3) have n: "0 < n" by (cases payload) auto
  have "range_step 0 (length payload) n = [0]"
    using assms(2,3) n by (simp add: range_step_go range_step_stop)
  then have "divide payload n = Inr [payload]"
    using n assms(3) by (simp add: divide_def slice_def)
  with assms(1) show ?thesis by (simp add: push_in_batches_def)
qed

lemma scenario_accepts:
  "\<forall>t b. update_stocks scenario_ozon t c b = None"
  "\<forall>t b. update_price scenario_ozon t c b = None"
  "\<forall>t b. update_stocks scenario_market t c b = None"
  "\<forall>t b. update_price scenario_market t c b = None"
  by (simp_all add: scenario_ozon_def scenario_market_def)

lemma scenario_seller_main':
  "seller_main plain_tables scenario_ozon c
     = Some ([Get_Product_List c [], Download_Stock, Update_Stocks c scenario_stocks], None)"
proof -
  have feed: "download_stock scenario_ozon t = Inr scenario_feed" for t
    by (simp add: scenario_ozon_def)
  have no_price: "seller_create_prices scenario_feed [lit ''002''] = Inr []"
    by (simp add: scenario_feed_def lit_def)
  have push: "push_in_batches (\<lambda>t. update_stocks scenario_ozon t c) (Update_Stocks c) 100
                scenario_stocks t = (t @ [Update_Stocks c scenario_stocks], None)" for t
    by (rule push_one_batch) (simp_all add: scenario_accepts scenario_stocks_def)
  have none: "push_in_batches (\<lambda>t. update_price scenario_ozon t c) (Update_Price c) 900 [] t
                = (t, None)" for t
    by (simp add: push_in_batches_def divide_Nil)
  show ?thesis
    by (simp add: seller_main_def seller_main_try_def scenario_ozon_offer_ids feed
        scenario_seller_stocks' push no_price none)
qed

lemma scenario_seller_upload_prices:
  "seller_upload_prices scenario_ozon scenario_feed c []
     = Some ([Get_Product_List c [], Update_Price c scenario_prices], Inr scenario_prices)"
proof -
  have push: "push_in_batches (\<lambda>t. update_price scenario_ozon t c) (Update_Price c) 1000
                scenario_prices t = (t @ [Update_Price c scenario_prices], None)" for t
    by (rule push_one_batch) (simp_all add: scenario_accepts scenario_prices_def)
  show ?thesis
    by (simp add: seller_upload_prices_def scenario_ozon_offer_ids scenario_seller_prices push)
qed

lemma scenario_seller_upload_stocks:
  "seller_upload_stocks plain_tables scenario_ozon scenario_feed c []
     = Some ([Get_Product_List c [], Update_Stocks c scenario_stocks],
             Inr ([\<lparr>stock_offer_id = lit ''001'', stock = 10\<rparr>], scenario_stocks))"
proof -
  have push: "push_in_batches (\<lambda>t. update_stocks scenario_ozon t c) (Update_Stocks c) 100
                scenario_stocks t = (t @ [Update_Stocks c scenario_stocks], None)" for t
    by (rule push_one_batch) (simp_all add: scenario_accepts scenario_stocks_def)
  have ne: "filter (\<lambda>s. stock s \<noteq> 0) scenario_stocks = [\<lparr>stock_offer_id = lit ''001'', stock = 10\<rparr>]"
    by (simp add: scenario_stocks_def)
  show ?thesis
    by (simp add: seller_upload_stocks_def scenario_ozon_offer_ids scenario_seller_stocks' push ne)
qed

lemma scenario_market_upload_prices:
  "market_upload_prices plain_tables scenario_market scenario_feed c []
     = Some ([Get_Product_List c [], Update_Price c scenario_offer_prices],
             Inr scenario_offer_prices)"
proof -
  have push: "push_in_batches (\<lambda>t. update_price scenario_market t c) (Update_Price c) 500
                scenario_offer_prices t = (t @ [Update_Price c scenario_offer_prices], None)" for t
    by (rule push_one_batch) (simp_all add: scenario_accepts scenario_offer_prices_def)
  show ?thesis
    by (simp add: market_upload_prices_def scenario_market_offer_ids scenario_market_prices push)
qed

lemma scenario_clock: "utcnow scenario_market t = lit ''2020-10-10T10:00:00Z''"
  by (simp add: scenario_market_def)

lemma scenario_push_skus:
  "push_in_batches (\<lambda>t. update_stocks scenario_market t c) (Update_Stocks c) 2000
     (scenario_skus wh) t = (t @ [Update_Stocks c (scenario_skus wh)], None)"
  by (rule push_one_batch) (simp_all add: scenario_accepts scenario_skus_def)

lemma scenario_market_upload_stocks:
  "market_upload_stocks plain_tables scenario_market scenario_feed c wh []
     = Some ([Get_Product_List c [], Update_Stocks c (scenario_skus wh)],
             Inr ([\<lparr>sku = lit ''001'', warehouseId = wh,
                 items = [\<lparr>item_count = 10, item_type = lit ''FIT'',
                           item_updatedAt = lit ''2020-10-10T10:00:00Z''\<rparr>]\<rparr>],
                  scenario_skus wh))"
proof -
  have ne: "filter (\<lambda>s. case items s of [] \<Rightarrow> False | i # _ \<Rightarrow> item_count i \<noteq> 0) (scenario_skus wh)
              = [\<lparr>sku = lit ''001'', warehouseId = wh,
                 items = [\<lparr>item_count = 10, item_type = lit ''FIT'',
                           item_updatedAt = lit ''2020-10-10T10:00:00Z''\<rparr>]\<rparr>]"
    by (simp add: scenario_skus_def market_stock_entry_def)
  show ?thesis
    by (simp add: market_upload_stocks_def scenario_market_offer_ids scenario_clock
        scenario_market_stocks scenario_push_skus ne)
qed

lemma scenario_market_main_campaign:
  "market_main_campaign plain_tables scenario_market scenario_feed c wh tr
     = Some (tr @ [Get_Product_List c [], Update_Stocks c (scenario_skus wh)], None)"
  by (simp add: market_main_campaign_def scenario_market_offer_ids scenario_clock
      scenario_market_stocks scenario_push_skus)

lemma scenario_market_main:
  "market_main plain_tables scenario_market fbs dbs whf whd
     = Some ([Download_Stock,
              Get_Product_List fbs [], Update_Stocks fbs (scenario_skus whf),
              Get_Product_List dbs [], Update_Stocks dbs (scenario_skus whd)], None)"
proof -
  have feed: "download_stock scenario_market t = Inr scenario_feed" for t
    by (simp add: scenario_market_def)
  show ?thesis
    by (simp add: market_main_def market_main_try_def feed scenario_market_main_campaign)
qed

text \<open>A run in which the driver of seller.py has more than 900 prices to submit.\<close>

lemma reconcile_loop_replicate:
  assumes "watch_code w = a" and "stock_of_count U (watch_quantity w) = Inr n"
  shows "reconcile_loop entry U (replicate m w) (replicate (m + k) a) acc
           = (replicate k a, Inr (acc @ replicate m (entry a n)))"
proof (induction m arbitrary: acc)
  case 0
  show ?case by simp
next
  case (Suc m)
  have "reconcile_loop entry U (replicate (Suc m) w) (replicate (Suc m + k) a) acc
          = reconcile_loop entry U (replicate m w) (replicate (m + k) a) (acc @ [entry a n])"
    using assms by simp
  also have "\<dots> = (replicate k a, Inr ((acc @ [entry a n]) @ replicate m (entry a n)))"
    by (rule Suc.IH)
  also have "(acc @ [entry a n]) @ replicate m (entry a n) = acc @ replicate (Suc m) (entry a n)"
    by simp
  finally show ?case .
qed

lemma repeated_stock: "stock_of_count plain_tables (watch_quantity repeated_watch) = Inr 5"
  by (simp add: repeated_watch_def stock_of_count_def py_int_def parse_digits_def
      ascii_digit_def ascii_space_def lit_def plain_tables_def)

lemma repeated_create_stocks:
  "seller_create_stocks plain_tables (replicate 901 repeated_watch) (replicate 902 (lit ''001''))
     = ([lit ''001''],
        Inr (replicate 901 (ozon_stock_entry (lit ''001'') 5) @ [ozon_stock_entry (lit ''001'') 0]))"
proof -
  have code: "watch_code repeated_watch = lit ''001''"
    by (simp add: repeated_watch_def)
  have "reconcile_loop ozon_stock_entry plain_tables (replicate 901 repeated_watch)
          (replicate (901 + 1) (lit ''001'')) []
        = (replicate 1 (lit ''001''), Inr ([] @ replicate 901 (ozon_stock_entry (lit ''001'') 5)))"
    by (rule reconcile_loop_replicate [OF code repeated_stock])
  then show ?thesis
    by (simp add: seller_create_stocks_def seller_stocks_loop_reconcile ozon_stock_entry_def)
qed

lemma repeated_create_prices:
  "seller_create_prices (replicate 901 repeated_watch) [lit ''001'']
     = Inr (replicate 901 (ozon_price_entry repeated_watch))"
  by (simp add: seller_create_prices_eq repeated_watch_def)

lemma divide_901_by_900: "divide (replicate 901 x) 900 = Inr [replicate 900 x, replicate 1 x]"
proof -
  have "range_step 0 901 900 = [0, 900]"
    by (simp add: range_step_go range_step_stop)
  then show ?thesis
    by (simp add: divide_def slice_def)
qed

lemma push_in_batches_accepted:
  assumes "0 < n" and "\<forall>t b. call t b = None"
  shows "\<exists>chunks. divide payload n = Inr chunks
           \<and> push_in_batches call ev n payload tr = (tr @ map ev chunks, None)"
proof -
  from divide_shape [OF assms(1), of payload] obtain chunks where
    c: "divide payload n = Inr chunks" by blast
  with submit_batches_accepted [OF assms(2), of ev chunks tr] show ?thesis
    by (simp add: push_in_batches_def)
qed

lemma repeated_seller_main:
  "\<exists>chunks. seller_main plain_tables repeated_ozon c
     = Some ([Get_Product_List c [], Download_Stock] @ map (Update_Stocks c) chunks
               @ [Update_Price c (replicate 900 (ozon_price_entry repeated_watch)),
                  Update_Price c (replicate 1 (ozon_price_entry repeated_watch))],
             None)"
proof -
  have ids: "seller_get_offer_ids repeated_ozon c []
               = Some ([Get_Product_List c []], Inr (replicate 902 (lit ''001'')))"
    by (simp add: seller_get_offer_ids_def seller_get_offer_ids_loop.simps repeated_ozon_def)
  have feed: "download_stock repeated_ozon t = Inr (replicate 901 repeated_watch)" for t
    by (simp add: repeated_ozon_def)
  have acc_p: "\<forall>t b. update_price repeated_ozon t c b = None"
    by (simp add: repeated_ozon_def)
  have "\<exists>chunks. divide
            (replicate 901 (ozon_stock_entry (lit ''001'') 5) @ [ozon_stock_entry (lit ''001'') 0])
            100 = Inr chunks
          \<and> push_in_batches (\<lambda>t. update_stocks repeated_ozon t c) (Update_Stocks c) 100
               (replicate 901 (ozon_stock_entry (lit ''001'') 5) @ [ozon_stock_entry (lit ''001'') 0])
               [Get_Product_List c [], Download_Stock]
             = ([Get_Product_List c [], Download_Stock] @ map (Update_Stocks c) chunks, None)"
    by (rule push_in_batches_accepted) (simp_all add: repeated_ozon_def)
  then obtain chunks where
    stocks: "push_in_batches (\<lambda>t. update_stocks repeated_ozon t c) (Update_Stocks c) 100
               (replicate 901 (ozon_stock_entry (lit ''001'') 5) @ [ozon_stock_entry (lit ''001'') 0])
               [Get_Product_List c [], Download_Stock]
             = ([Get_Product_List c [], Download_Stock] @ map (Update_Stocks c) chunks, None)"
    by blast
  have prices: "push_in_batches (\<lambda>t. update_price repeated_ozon t c) (Update_Price c) 900
                  (replicate 901 (ozon_price_entry repeated_watch)) t
                = (t @ map (Update_Price c)
                         [replicate 900 (ozon_price_entry repeated_watch),
                          replicate 1 (ozon_price_entry repeated_watch)], None)" for t
    using submit_batches_accepted [OF acc_p]
    by (simp add: push_in_batches_def divide_901_by_900)
  show ?thesis
    by (intro exI [of _ chunks])
      (simp add: seller_main_def seller_main_try_def ids feed repeated_create_stocks stocks
        repeated_create_prices prices)
qed

text \<open>
  Claim C7, as stated, fails for the driver of seller.py: \<open>main\<close> cuts the price payload
  with \<open>divide(prices, 900)\<close>. In the run below (the account lists an offer id 902 times,
  the feed has 901 records of that code, so 901 prices remain to be sent) the price batches
  have 900 items and 1 item: the first batch is not the last and has fewer than 1000 items.
\<close>

theorem price_batch_size_counterexample:
  "map_option (\<lambda>run. map length (price_batches (fst run)))
     (seller_main plain_tables repeated_ozon (lit ''client'')) = Some [900, 1]"
proof -
  from repeated_seller_main [of "lit ''client''"] obtain chunks where
    "seller_main plain_tables repeated_ozon (lit ''client'')
     = Some ([Get_Product_List (lit ''client'') [], Download_Stock]
               @ map (Update_Stocks (lit ''client'')) chunks
               @ [Update_Price (lit ''client'') (replicate 900 (ozon_price_entry repeated_watch)),
                  Update_Price (lit ''client'') (replicate 1 (ozon_price_entry repeated_watch))],
             None)" ..
  then show ?thesis by simp
qed

text \<open>
  Claim C7, amended. Only the last batch of a submission is smaller than the batch size,
  no batch is empty, and the sizes are: in seller.py, 100 for the stocks (in \<open>main\<close> and in
  \<open>upload_stocks\<close>), 900 for the prices in \<open>main\<close> (so every price batch of the Ozon
  driver has at most 900 items, which is below 1000) and 1000 for the prices in
  \<open>upload_prices\<close>; in market.py, 2000 for the stocks (in each campaign block of \<open>main\<close>
  and in \<open>upload_stocks\<close>) and 500 for the prices in \<open>upload_prices\<close>. A submission that
  raises nothing has sent the whole payload. The statements hold for every behaviour of
  the marketplace; \<open>tr0\<close> and \<open>mt0\<close> are the traces before the call.
\<close>

theorem batch_sizes:
  "(seller_main U W client_id = Some (tr_main, r_main) \<longrightarrow>
       batches_of_size 100 (stock_batches tr_main) \<and> batches_of_size 900 (price_batches tr_main))
   \<and> (seller_upload_prices W watch_remnants client_id tr0 = Some (tr_up, r_up) \<longrightarrow>
       (\<exists>new. tr_up = tr0 @ new \<and> batches_of_size 1000 (price_batches new)
          \<and> stock_batches new = []
          \<and> (\<forall>prices. r_up = Inr prices \<longrightarrow> concat (price_batches new) = prices)))
   \<and> (seller_upload_stocks U W watch_remnants client_id tr0 = Some (tr_us, r_us) \<longrightarrow>
       (\<exists>new. tr_us = tr0 @ new \<and> batches_of_size 100 (stock_batches new)
          \<and> price_batches new = []
          \<and> (\<forall>not_empty stocks. r_us = Inr (not_empty, stocks)
                \<longrightarrow> concat (stock_batches new) = stocks)))
   \<and> (market_upload_prices U M watch_remnants campaign_id mt0 = Some (tr_mp, r_mp) \<longrightarrow>
       (\<exists>new. tr_mp = mt0 @ new \<and> batches_of_size 500 (price_batches new)
          \<and> stock_batches new = []
          \<and> (\<forall>prices. r_mp = Inr prices \<longrightarrow> concat (price_batches new) = prices)))
   \<and> (market_upload_stocks U M watch_remnants campaign_id warehouse_id mt0 = Some (tr_ms, r_ms) \<longrightarrow>
       (\<exists>new. tr_ms = mt0 @ new \<and> batches_of_size 2000 (stock_batches new)
          \<and> price_batches new = []
          \<and> (\<forall>not_empty stocks. r_ms = Inr (not_empty, stocks)
                \<longrightarrow> concat (stock_batches new) = stocks)))
   \<and> (market_main_campaign U M watch_remnants campaign_id warehouse_id mt0 = Some (tr_mc, r_mc) \<longrightarrow>
       (\<exists>new. tr_mc = mt0 @ new \<and> batches_of_size 2000 (stock_batches new)))
   \<and> (market_main U M fbs_id dbs_id warehouse_fbs_id warehouse_dbs_id = Some (tr_mm, r_mm) \<longrightarrow>
       (\<forall>b \<in> set (stock_batches tr_mm). b \<noteq> [] \<and> length b \<le> 2000))"
proof (intro conjI impI)
  assume "seller_main U W client_id = Some (tr_main, r_main)"
  from seller_main_batches [OF this]
  show "batches_of_size 100 (stock_batches tr_main)"
    and "batches_of_size 900 (price_batches tr_main)" by simp_all
next
  assume "seller_upload_prices W watch_remnants client_id tr0 = Some (tr_up, r_up)"
  then show "\<exists>new. tr_up = tr0 @ new \<and> batches_of_size 1000 (price_batches new)
          \<and> stock_batches new = []
          \<and> (\<forall>prices. r_up = Inr prices \<longrightarrow> concat (price_batches new) = prices)"
    by (rule seller_upload_prices_trace)
next
  assume "seller_upload_stocks U W watch_remnants client_id tr0 = Some (tr_us, r_us)"
  then show "\<exists>new. tr_us = tr0 @ new \<and> batches_of_size 100 (stock_batches new)
          \<and> price_batches new = []
          \<and> (\<forall>not_empty stocks. r_us = Inr (not_empty, stocks)
                \<longrightarrow> concat (stock_batches new) = stocks)"
    by (rule seller_upload_stocks_trace)
next
  assume "market_upload_prices U M watch_remnants campaign_id mt0 = Some (tr_mp, r_mp)"
  then show "\<exists>new. tr_mp = mt0 @ new \<and> batches_of_size 500 (price_batches new)
          \<and> stock_batches new = []
          \<and> (\<forall>prices. r_mp = Inr prices \<longrightarrow> concat (price_batches new) = prices)"
    by (rule market_upload_prices_trace)
next
  assume "market_upload_stocks U M watch_remnants campaign_id warehouse_id mt0 = Some (tr_ms, r_ms)"
  then show "\<exists>new. tr_ms = mt0 @ new \<and> batches_of_size 2000 (stock_batches new)
          \<and> price_batches new = []
          \<and> (\<forall>not_empty stocks. r_ms = Inr (not_empty, stocks)
                \<longrightarrow> concat (stock_batches new) = stocks)"
    by (rule market_upload_stocks_trace)
next
  assume "market_main_campaign U M watch_remnants campaign_id warehouse_id mt0 = Some (tr_mc, r_mc)"
  then show "\<exists>new. tr_mc = mt0 @ new \<and> batches_of_size 2000 (stock_batches new)"
    by (rule market_main_campaign_batches)
next
  assume "market_main U M fbs_id dbs_id warehouse_fbs_id warehouse_dbs_id = Some (tr_mm, r_mm)"
  then show "\<forall>b \<in> set (stock_batches tr_mm). b \<noteq> [] \<and> length b \<le> 2000"
    by (rule market_main_batches)
qed

theorem batch_sizes_witness:
  "seller_main plain_tables scenario_ozon (lit ''client'')
     = Some ([Get_Product_List (lit ''client'') [], Download_Stock,
              Update_Stocks (lit ''client'') scenario_stocks], None)
   \<and> batches_of_size 100 [scenario_stocks]
   \<and> seller_upload_prices scenario_ozon scenario_feed (lit ''client'') []
     = Some ([Get_Product_List (lit ''client'') [], Update_Price (lit ''client'') scenario_prices],
             Inr scenario_prices)
   \<and> seller_upload_stocks plain_tables scenario_ozon scenario_feed (lit ''client'') []
     = Some ([Get_Product_List (lit ''client'') [], Update_Stocks (lit ''client'') scenario_stocks],
             Inr ([\<lparr>stock_offer_id = lit ''001'', stock = 10\<rparr>], scenario_stocks))
   \<and> market_upload_prices plain_tables scenario_market scenario_feed (lit ''fbs'') []
     = Some ([Get_Product_List (lit ''fbs'') [], Update_Price (lit ''fbs'') scenario_offer_prices],
             Inr scenario_offer_prices)
   \<and> market_upload_stocks plain_tables scenario_market scenario_feed (lit ''fbs'') (lit ''wh1'') []
     = Some ([Get_Product_List (lit ''fbs'') [],
              Update_Stocks (lit ''fbs'') (scenario_skus (lit ''wh1''))],
             Inr ([\<lparr>sku = lit ''001'', warehouseId = lit ''wh1'',
                 items = [\<lparr>item_count = 10, item_type = lit ''FIT'',
                           item_updatedAt = lit ''2020-10-10T10:00:00Z''\<rparr>]\<rparr>],
                  scenario_skus (lit ''wh1'')))
   \<and> market_main_campaign plain_tables scenario_market scenario_feed (lit ''fbs'') (lit ''wh1'') []
     = Some ([Get_Product_List (lit ''fbs'') [],
              Update_Stocks (lit ''fbs'') (scenario_skus (lit ''wh1''))], None)
   \<and> market_main plain_tables scenario_market (lit ''fbs'') (lit ''dbs'') (lit ''wh1'') (lit ''wh2'')
     = Some ([Download_Stock,
              Get_Product_List (lit ''fbs'') [],
              Update_Stocks (lit ''fbs'') (scenario_skus (lit ''wh1'')),
              Get_Product_List (lit ''dbs'') [],
              Update_Stocks (lit ''dbs'') (scenario_skus (lit ''wh2''))], None)"
  using batch_sizes [where U = plain_tables and W = scenario_ozon and M = scenario_market
      and client_id = "lit ''client''" and campaign_id = "lit ''fbs''"
      and warehouse_id = "lit ''wh1''" and watch_remnants = scenario_feed
      and ?tr0.0 = "[]" and ?mt0.0 = "[]"
      and tr_main = "[Get_Product_List (lit ''client'') [], Download_Stock,
              Update_Stocks (lit ''client'') scenario_stocks]" and r_main = None
      and tr_up = "[Get_Product_List (lit ''client'') [], Update_Price (lit ''client'') scenario_prices]"
      and r_up = "Inr scenario_prices"
      and tr_us = "[Get_Product_List (lit ''client'') [], Update_Stocks (lit ''client'') scenario_stocks]"
      and r_us = "Inr ([\<lparr>stock_offer_id = lit ''001'', stock = 10\<rparr>], scenario_stocks)"
      and tr_mp = "[Get_Product_List (lit ''fbs'') [], Update_Price (lit ''fbs'') scenario_offer_prices]"
      and r_mp = "Inr scenario_offer_prices"
      and tr_ms = "[Get_Product_List (lit ''fbs'') [],
              Update_Stocks (lit ''fbs'') (scenario_skus (lit ''wh1''))]"
      and r_ms = "Inr ([\<lparr>sku = lit ''001'', warehouseId = lit ''wh1'',
                 items = [\<lparr>item_count = 10, item_type = lit ''FIT'',
                           item_updatedAt = lit ''2020-10-10T10:00:00Z''\<rparr>]\<rparr>],
                  scenario_skus (lit ''wh1''))"
      and tr_mc = "[Get_Product_List (lit ''fbs'') [],
              Update_Stocks (lit ''fbs'') (scenario_skus (lit ''wh1''))]" and r_mc = None
      and fbs_id = "lit ''fbs''" and dbs_id = "lit ''dbs''"
      and warehouse_fbs_id = "lit ''wh1''" and warehouse_dbs_id = "lit ''wh2''"
      and tr_mm = "[Download_Stock,
              Get_Product_List (lit ''fbs'') [],
              Update_Stocks (lit ''fbs'') (scenario_skus (lit ''wh1'')),
              Get_Product_List (lit ''dbs'') [],
              Update_Stocks (lit ''dbs'') (scenario_skus (lit ''wh2''))]" and r_mm = None]
  by (simp add: scenario_seller_main' scenario_seller_upload_prices scenario_seller_upload_stocks
      scenario_market_upload_prices scenario_market_upload_stocks scenario_market_main_campaign
      scenario_market_main)

section \<open>Exceptions at the top level\<close>

text \<open>
  Claim C8, at an input where the code departs from it. When the download of the feed
  raises a connection error, \<open>main\<close> of market.py performs the download and the exception
  leaves \<open>main\<close>: nothing is printed, because \<open>download_stock()\<close> is called before the
  \<open>try\<close>. \<open>main\<close> of seller.py calls it inside the \<open>try\<close>: there the same error is caught,
  printed once with the connection tag, and the run ends with no exception.
\<close>

theorem download_error_escapes_market_main:
  "market_main plain_tables offline_market (lit ''fbs'') (lit ''dbs'') (lit ''wh1'') (lit ''wh2'')
     = Some ([Download_Stock], Some ConnectionError)
   \<and> seller_main plain_tables offline_ozon (lit ''client'')
     = Some ([Get_Product_List (lit ''client'') [], Download_Stock,
              Print (Connection_Message ConnectionError)], None)"
proof -
  have "seller_get_offer_ids offline_ozon (lit ''client'') []
          = Some ([Get_Product_List (lit ''client'') []], Inr scenario_offer_ids)"
    by (simp add: seller_get_offer_ids_def seller_get_offer_ids_loop.simps offline_ozon_def
        scenario_ozon_def scenario_offer_ids_def)
  then show ?thesis
    by (simp add: market_main_def offline_market_def seller_main_def seller_main_try_def
        offline_ozon_def handler_def)
qed

section \<open>The sequence of a run\<close>

lemma stock_phase_append_fetches:
  "list_all (fetch_of c) pages \<Longrightarrow> filter stock_phase (pages @ xs) = pages @ filter stock_phase xs"
  by (simp add: stock_phase_fetches)


















end
